theory Spec2Isabelle
  imports Main "HOL-Library.Word"
begin

section \<open>The CUDA runtime and OpenGL as an explicit world\<close>

text \<open>
  \<^verbatim>\<open>GpuArray.h\<close> keeps one array in host memory, in device memory and, optionally, in
  an OpenGL buffer object. Every member function works through the C++ heap, the CUDA
  runtime and OpenGL. Their state is the record \<open>world\<close>; each call of the source is a
  function on it. Sizes and offsets are counted in elements of \<open>T\<close>: the factor
  \<^verbatim>\<open>sizeof(T)\<close> of the source is common to every size and is left out.
\<close>

datatype cudaError =
    cudaSuccess
  | cudaErrorMemoryAllocation
  | cudaErrorInvalidValue
  | cudaErrorInvalidDevicePointer
  | cudaErrorInvalidResourceHandle
  | cudaErrorInvalidDevice

text \<open>
  How a call can end other than by returning: \<^verbatim>\<open>exit(-1)\<close> in
  \<^verbatim>\<open>__cudaSafeCall\<close>, a \<^verbatim>\<open>delete[]\<close> of memory that is not allocated, or the
  exception \<^verbatim>\<open>std::bad_alloc\<close> (or its subclass \<^verbatim>\<open>std::bad_array_new_length\<close>)
  of a \<^verbatim>\<open>new[]\<close> that finds no memory, which nothing in the class catches.
\<close>

datatype abort = Exit cudaError | UndefinedBehaviour | Throw_bad_alloc

text \<open>
  A device address names the memory block it points into: nothing (the null pointer), a
  block of \<^verbatim>\<open>cudaMalloc\<close>, or the store of a mapped buffer object. The element offset
  of \<^verbatim>\<open>ptr + start\<close> is kept beside it, in \<open>addr\<close>.
\<close>

datatype devptr = DevNull | DevBlock nat | VboBlock nat

datatype addr = HostAddr nat nat | DevAddr devptr nat

datatype cudaMemcpyKind = cudaMemcpyHostToDevice | cudaMemcpyDeviceToHost

datatype gl_target = GL_ARRAY_BUFFER | GL_ELEMENT_ARRAY_BUFFER

record 'a glbuffer =
  gl_data :: "'a list"
  registered :: bool
  write_discard :: bool
  mapped :: bool

text \<open>
  \<open>host_heap\<close> and \<open>dev_heap\<close> hold the live blocks of \<^verbatim>\<open>new[]\<close> and
  \<^verbatim>\<open>cudaMalloc\<close>, \<open>gl_buffers\<close> the buffer objects by name. Host addresses and
  buffer names are numbers, 0 being the null pointer and the name of no buffer.
  \<open>host_avail\<close> and \<open>dev_avail\<close> are the elements that host and device memory
  have room for yet. \<open>devID\<close> and \<open>renderDevID\<close> are the two globals of
  \<^verbatim>\<open>main.cpp\<close>. Memory that
  the source leaves uninitialised holds \<open>uninit w i\<close> at index \<open>i\<close>; what the driver
  leaves of an element of a buffer mapped with \<^verbatim>\<open>cudaGLMapFlagsWriteDiscard\<close> is
  \<open>discard w\<close> of it. Both are arbitrary.
\<close>

record 'a world =
  host_heap :: "nat \<rightharpoonup> 'a list"
  dev_heap :: "nat \<rightharpoonup> 'a list"
  gl_buffers :: "nat \<rightharpoonup> 'a glbuffer"
  gl_array_binding :: nat
  gl_element_binding :: nat
  next_handle :: nat
  host_avail :: nat
  dev_avail :: nat
  device_count :: nat
  cur_device :: int
  devID :: int
  renderDevID :: int
  uninit :: "nat \<Rightarrow> 'a"
  discard :: "'a \<Rightarrow> 'a"

definition fresh_block :: "'a world \<Rightarrow> nat \<Rightarrow> 'a list" where
  "fresh_block w n = map (uninit w) [0..<n]"

subsection \<open>The C++ heap\<close>

text \<open>
  \<^verbatim>\<open>new T[n]\<close> returns a new block, never the null pointer, or throws when the host has
  no room for it; it then changes nothing.
\<close>

definition new_array :: "nat \<Rightarrow> 'a world \<Rightarrow> abort + nat \<times> 'a world" where
  "new_array n w =
     (if n \<le> host_avail w
      then (let p = next_handle w + 1
            in Inr (p, w\<lparr>host_heap := (host_heap w)(p \<mapsto> fresh_block w n),
                         host_avail := host_avail w - n, next_handle := p\<rparr>))
      else Inl Throw_bad_alloc)"

definition delete_array :: "nat \<Rightarrow> 'a world \<Rightarrow> abort + 'a world" where
  "delete_array p w =
     (case host_heap w p of
        None \<Rightarrow> Inl UndefinedBehaviour
      | Some h \<Rightarrow>
          Inr (w\<lparr>host_heap := (host_heap w)(p := None),
                 host_avail := host_avail w + length h\<rparr>))"

subsection \<open>The CUDA runtime\<close>

definition cudaMalloc :: "nat \<Rightarrow> 'a world \<Rightarrow> cudaError \<times> devptr \<times> 'a world" where
  "cudaMalloc n w =
     (if n \<le> dev_avail w
      then (let p = next_handle w + 1
            in (cudaSuccess, DevBlock p,
                w\<lparr>dev_heap := (dev_heap w)(p \<mapsto> fresh_block w n),
                  dev_avail := dev_avail w - n, next_handle := p\<rparr>))
      else (cudaErrorMemoryAllocation, DevNull, w))"

definition cudaFree :: "devptr \<Rightarrow> 'a world \<Rightarrow> cudaError \<times> 'a world" where
  "cudaFree p w =
     (case p of
        DevNull \<Rightarrow> (cudaSuccess, w)
      | DevBlock b \<Rightarrow>
          (case dev_heap w b of
             None \<Rightarrow> (cudaErrorInvalidDevicePointer, w)
           | Some d \<Rightarrow>
               (cudaSuccess,
                w\<lparr>dev_heap := (dev_heap w)(b := None), dev_avail := dev_avail w + length d\<rparr>))
      | VboBlock v \<Rightarrow> (cudaErrorInvalidDevicePointer, w))"

definition cudaSetDevice :: "int \<Rightarrow> 'a world \<Rightarrow> cudaError \<times> 'a world" where
  "cudaSetDevice d w =
     (if 0 \<le> d \<and> d < int (device_count w)
      then (cudaSuccess, w\<lparr>cur_device := d\<rparr>)
      else (cudaErrorInvalidDevice, w))"

definition host_read :: "nat \<Rightarrow> 'a world \<Rightarrow> 'a list option" where
  "host_read p w = (if p = 0 then None else host_heap w p)"

definition dev_read :: "devptr \<Rightarrow> 'a world \<Rightarrow> 'a list option" where
  "dev_read p w =
     (case p of
        DevNull \<Rightarrow> None
      | DevBlock b \<Rightarrow> dev_heap w b
      | VboBlock v \<Rightarrow>
          (case gl_buffers w v of
             None \<Rightarrow> None
           | Some b \<Rightarrow> if mapped b then Some (gl_data b) else None))"

definition dev_write :: "devptr \<Rightarrow> 'a list \<Rightarrow> 'a world \<Rightarrow> 'a world" where
  "dev_write p d w =
     (case p of
        DevNull \<Rightarrow> w
      | DevBlock b \<Rightarrow> w\<lparr>dev_heap := (dev_heap w)(b \<mapsto> d)\<rparr>
      | VboBlock v \<Rightarrow>
          (case gl_buffers w v of
             None \<Rightarrow> w
           | Some b \<Rightarrow> w\<lparr>gl_buffers := (gl_buffers w)(v \<mapsto> b\<lparr>gl_data := d\<rparr>)\<rparr>))"

text \<open>\<open>blit dst doff src soff n\<close>: \<open>dst\<close> with \<open>n\<close> elements from \<open>src\<close> written over it.\<close>

definition blit :: "'a list \<Rightarrow> nat \<Rightarrow> 'a list \<Rightarrow> nat \<Rightarrow> nat \<Rightarrow> 'a list" where
  "blit dst doff src soff n = take doff dst @ take n (drop soff src) @ drop (doff + n) dst"

text \<open>
  \<^verbatim>\<open>cudaMemcpy(dst, src, count, kind)\<close>. A transfer that does not lie inside a live
  block on both sides is refused with \<open>cudaErrorInvalidValue\<close> and moves nothing.
\<close>

definition cudaMemcpy ::
  "addr \<Rightarrow> addr \<Rightarrow> nat \<Rightarrow> cudaMemcpyKind \<Rightarrow> 'a world \<Rightarrow> cudaError \<times> 'a world" where
  "cudaMemcpy dst src n kind w =
     (case kind of
        cudaMemcpyHostToDevice \<Rightarrow>
          (case (dst, src) of
             (DevAddr dp doff, HostAddr hp hoff) \<Rightarrow>
               (case (dev_read dp w, host_read hp w) of
                  (Some d, Some h) \<Rightarrow>
                    if doff + n \<le> length d \<and> hoff + n \<le> length h
                    then (cudaSuccess, dev_write dp (blit d doff h hoff n) w)
                    else (cudaErrorInvalidValue, w)
                | _ \<Rightarrow> (cudaErrorInvalidValue, w))
           | _ \<Rightarrow> (cudaErrorInvalidValue, w))
      | cudaMemcpyDeviceToHost \<Rightarrow>
          (case (dst, src) of
             (HostAddr hp hoff, DevAddr dp doff) \<Rightarrow>
               (case (host_read hp w, dev_read dp w) of
                  (Some h, Some d) \<Rightarrow>
                    if hoff + n \<le> length h \<and> doff + n \<le> length d
                    then (cudaSuccess,
                          w\<lparr>host_heap := (host_heap w)(hp \<mapsto> blit h hoff d doff n)\<rparr>)
                    else (cudaErrorInvalidValue, w)
                | _ \<Rightarrow> (cudaErrorInvalidValue, w))
           | _ \<Rightarrow> (cudaErrorInvalidValue, w)))"

subsection \<open>OpenGL buffer objects and their CUDA registration\<close>

definition glGenBuffers :: "'a world \<Rightarrow> nat \<times> 'a world" where
  "glGenBuffers w = (let v = next_handle w + 1 in (v, w\<lparr>next_handle := v\<rparr>))"

definition bound_buffer :: "gl_target \<Rightarrow> 'a world \<Rightarrow> nat" where
  "bound_buffer t w =
     (case t of GL_ARRAY_BUFFER \<Rightarrow> gl_array_binding w
              | GL_ELEMENT_ARRAY_BUFFER \<Rightarrow> gl_element_binding w)"

text \<open>Binding a generated name for the first time creates the buffer object, empty.\<close>

definition glBindBuffer :: "gl_target \<Rightarrow> nat \<Rightarrow> 'a world \<Rightarrow> 'a world" where
  "glBindBuffer t v w =
     (let w1 = (case t of GL_ARRAY_BUFFER \<Rightarrow> w\<lparr>gl_array_binding := v\<rparr>
                        | GL_ELEMENT_ARRAY_BUFFER \<Rightarrow> w\<lparr>gl_element_binding := v\<rparr>)
      in if v \<noteq> 0 \<and> gl_buffers w v = None
         then w1\<lparr>gl_buffers := (gl_buffers w)
                   (v \<mapsto> \<lparr>gl_data = [], registered = False, write_discard = False,
                          mapped = False\<rparr>)\<rparr>
         else w1)"

text \<open>
  \<^verbatim>\<open>glBufferData(target, size, 0, GL_DYNAMIC_DRAW)\<close>: a new, uninitialised store for the
  buffer bound to the target. With no buffer bound OpenGL records an error and does
  nothing; the source never asks for it.
\<close>

definition glBufferData :: "gl_target \<Rightarrow> nat \<Rightarrow> 'a world \<Rightarrow> 'a world" where
  "glBufferData t n w =
     (case gl_buffers w (bound_buffer t w) of
        None \<Rightarrow> w
      | Some b \<Rightarrow>
          w\<lparr>gl_buffers := (gl_buffers w)(bound_buffer t w \<mapsto> b\<lparr>gl_data := fresh_block w n\<rparr>)\<rparr>)"

definition glDeleteBuffers :: "nat \<Rightarrow> 'a world \<Rightarrow> 'a world" where
  "glDeleteBuffers v w =
     (if v = 0 then w
      else w\<lparr>gl_buffers := (gl_buffers w)(v := None),
             gl_array_binding := (if gl_array_binding w = v then 0 else gl_array_binding w),
             gl_element_binding :=
               (if gl_element_binding w = v then 0 else gl_element_binding w)\<rparr>)"

definition cudaGLRegisterBufferObject :: "nat \<Rightarrow> 'a world \<Rightarrow> cudaError \<times> 'a world" where
  "cudaGLRegisterBufferObject v w =
     (case gl_buffers w v of
        None \<Rightarrow> (cudaErrorInvalidResourceHandle, w)
      | Some b \<Rightarrow>
          if registered b then (cudaErrorInvalidResourceHandle, w)
          else (cudaSuccess,
                w\<lparr>gl_buffers := (gl_buffers w)(v \<mapsto> b\<lparr>registered := True, mapped := False\<rparr>)\<rparr>))"

text \<open>The only flag the source sets is \<^verbatim>\<open>cudaGLMapFlagsWriteDiscard\<close>.\<close>

definition cudaGLSetBufferObjectMapFlags :: "nat \<Rightarrow> 'a world \<Rightarrow> cudaError \<times> 'a world" where
  "cudaGLSetBufferObjectMapFlags v w =
     (case gl_buffers w v of
        None \<Rightarrow> (cudaErrorInvalidResourceHandle, w)
      | Some b \<Rightarrow>
          if registered b
          then (cudaSuccess, w\<lparr>gl_buffers := (gl_buffers w)(v \<mapsto> b\<lparr>write_discard := True\<rparr>)\<rparr>)
          else (cudaErrorInvalidResourceHandle, w))"

text \<open>
  Mapping hands the store of the buffer to CUDA. Under the write-discard flag the old
  contents need not survive: each element \<open>x\<close> becomes \<open>discard w x\<close>.
\<close>

definition cudaGLMapBufferObject :: "nat \<Rightarrow> 'a world \<Rightarrow> cudaError \<times> devptr \<times> 'a world" where
  "cudaGLMapBufferObject v w =
     (case gl_buffers w v of
        None \<Rightarrow> (cudaErrorInvalidResourceHandle, DevNull, w)
      | Some b \<Rightarrow>
          if registered b \<and> \<not> mapped b
          then (cudaSuccess, VboBlock v,
                w\<lparr>gl_buffers := (gl_buffers w)
                    (v \<mapsto> b\<lparr>gl_data := (if write_discard b then map (discard w) (gl_data b)
                                           else gl_data b),
                            mapped := True\<rparr>)\<rparr>)
          else (cudaErrorInvalidResourceHandle, DevNull, w))"

definition cudaGLUnmapBufferObject :: "nat \<Rightarrow> 'a world \<Rightarrow> cudaError \<times> 'a world" where
  "cudaGLUnmapBufferObject v w =
     (case gl_buffers w v of
        None \<Rightarrow> (cudaErrorInvalidResourceHandle, w)
      | Some b \<Rightarrow>
          if registered b \<and> mapped b
          then (cudaSuccess, w\<lparr>gl_buffers := (gl_buffers w)(v \<mapsto> b\<lparr>mapped := False\<rparr>)\<rparr>)
          else (cudaErrorInvalidResourceHandle, w))"

definition cudaGLUnregisterBufferObject :: "nat \<Rightarrow> 'a world \<Rightarrow> cudaError \<times> 'a world" where
  "cudaGLUnregisterBufferObject v w =
     (case gl_buffers w v of
        None \<Rightarrow> (cudaErrorInvalidResourceHandle, w)
      | Some b \<Rightarrow>
          if registered b
          then (cudaSuccess,
                w\<lparr>gl_buffers := (gl_buffers w)(v \<mapsto> b\<lparr>registered := False, mapped := False\<rparr>)\<rparr>)
          else (cudaErrorInvalidResourceHandle, w))"

text \<open>\<^verbatim>\<open>cutilSafeCall(err)\<close>: the process goes on only after \<open>cudaSuccess\<close>.\<close>

definition cutilSafeCall :: "cudaError \<Rightarrow> 'b \<Rightarrow> abort + 'b" where
  "cutilSafeCall err k = (if cudaSuccess \<noteq> err then Inl (Exit err) else Inr k)"

definition then_do :: "abort + 'b \<Rightarrow> ('b \<Rightarrow> abort + 'c) \<Rightarrow> abort + 'c" where
  "then_do r f = (case r of Inl e \<Rightarrow> Inl e | Inr x \<Rightarrow> f x)"

section \<open>The class \<^verbatim>\<open>GpuArray<T>\<close>\<close>

text \<open>
  The two-element members \<^verbatim>\<open>m_dptr[2]\<close> and \<^verbatim>\<open>m_vbo[2]\<close> are pairs, read and
  written through \<open>at2\<close> and \<open>set2\<close>. The source indexes them by 0, 1,
  \<^verbatim>\<open>m_currentRead\<close> and \<^verbatim>\<open>m_currentWrite\<close> only.
\<close>

definition at2 :: "'b \<times> 'b \<Rightarrow> nat \<Rightarrow> 'b" where
  "at2 a i = (if i = 0 then fst a else snd a)"

definition set2 :: "'b \<times> 'b \<Rightarrow> nat \<Rightarrow> 'b \<Rightarrow> 'b \<times> 'b" where
  "set2 a i x = (if i = 0 then (x, snd a) else (fst a, x))"

datatype Direction = HOST_TO_DEVICE | DEVICE_TO_HOST

record gpu_array =
  m_size :: "64 word"
  m_dptr :: "devptr \<times> devptr"
  m_vbo :: "nat \<times> nat"
  m_hptr :: nat
  m_useVBO :: bool
  m_doubleBuffer :: bool
  m_currentRead :: nat
  m_currentWrite :: nat

text \<open>
  The constructor initialises \<^verbatim>\<open>m_size\<close>, \<^verbatim>\<open>m_hptr\<close>, the two indices and the two
  arrays. It leaves \<^verbatim>\<open>m_useVBO\<close> and \<^verbatim>\<open>m_doubleBuffer\<close> uninitialised: they hold
  whatever the memory held, here the two arguments.
\<close>

definition GpuArray :: "bool \<Rightarrow> bool \<Rightarrow> gpu_array" where
  "GpuArray useVBO0 doubleBuffer0 =
     \<lparr>m_size = 0, m_dptr = (DevNull, DevNull), m_vbo = (0, 0), m_hptr = 0,
      m_useVBO = useVBO0, m_doubleBuffer = doubleBuffer0,
      m_currentRead = 0, m_currentWrite = 0\<rparr>"

definition getDevicePtr :: "gpu_array \<Rightarrow> devptr" where
  "getDevicePtr g = at2 (m_dptr g) (m_currentRead g)"

definition getVbo :: "gpu_array \<Rightarrow> nat" where
  "getVbo g = at2 (m_vbo g) (m_currentRead g)"

definition getDeviceWritePtr :: "gpu_array \<Rightarrow> devptr" where
  "getDeviceWritePtr g = at2 (m_dptr g) (m_currentWrite g)"

definition getWriteVbo :: "gpu_array \<Rightarrow> nat" where
  "getWriteVbo g = at2 (m_vbo g) (m_currentWrite g)"

definition getHostPtr :: "gpu_array \<Rightarrow> nat" where
  "getHostPtr g = m_hptr g"

definition getSize :: "gpu_array \<Rightarrow> 64 word" where
  "getSize g = m_size g"

subsection \<open>Allocation\<close>

definition allocHost :: "gpu_array \<Rightarrow> 'a world \<Rightarrow> abort + gpu_array \<times> 'a world" where
  "allocHost g w =
     then_do (new_array (unat (m_size g)) w) (\<lambda>(p, w1). Inr (g\<lparr>m_hptr := p\<rparr>, w1))"

definition allocDevice :: "gpu_array \<Rightarrow> 'a world \<Rightarrow> abort + gpu_array \<times> 'a world" where
  "allocDevice g w =
     (case cudaMalloc (unat (m_size g)) w of
        (err0, p0, w0) \<Rightarrow>
          then_do (cutilSafeCall err0 (g\<lparr>m_dptr := set2 (m_dptr g) 0 p0\<rparr>, w0))
            (\<lambda>(g0, w0).
               if m_doubleBuffer g0
               then (case cudaMalloc (unat (m_size g0)) w0 of
                       (err1, p1, w1) \<Rightarrow>
                         cutilSafeCall err1 (g0\<lparr>m_dptr := set2 (m_dptr g0) 1 p1\<rparr>, w1))
               else Inr (g0, w0)))"

definition createVbo :: "nat \<Rightarrow> bool \<Rightarrow> 'a world \<Rightarrow> abort + nat \<times> 'a world" where
  "createVbo sz useElementArray w =
     (let (vbo, w1) = glGenBuffers w;
          w2 = (if useElementArray
                then glBindBuffer GL_ELEMENT_ARRAY_BUFFER 0
                       (glBufferData GL_ELEMENT_ARRAY_BUFFER sz
                          (glBindBuffer GL_ELEMENT_ARRAY_BUFFER vbo w1))
                else glBindBuffer GL_ARRAY_BUFFER 0
                       (glBufferData GL_ARRAY_BUFFER sz
                          (glBindBuffer GL_ARRAY_BUFFER vbo w1)))
      in case cudaGLRegisterBufferObject vbo w2 of
           (err3, w3) \<Rightarrow>
             then_do (cutilSafeCall err3 w3)
               (\<lambda>w3. case cudaGLSetBufferObjectMapFlags vbo w3 of
                        (err4, w4) \<Rightarrow> cutilSafeCall err4 (vbo, w4)))"

definition allocVbo :: "bool \<Rightarrow> gpu_array \<Rightarrow> 'a world \<Rightarrow> abort + gpu_array \<times> 'a world" where
  "allocVbo useElementArray g w =
     then_do (createVbo (unat (m_size g)) useElementArray w)
       (\<lambda>(v0, w0).
          let g0 = g\<lparr>m_vbo := set2 (m_vbo g) 0 v0\<rparr>
          in if m_doubleBuffer g0
             then then_do (createVbo (unat (m_size g0)) useElementArray w0)
                    (\<lambda>(v1, w1). Inr (g0\<lparr>m_vbo := set2 (m_vbo g0) 1 v1\<rparr>, w1))
             else Inr (g0, w0))"

text \<open>
  \<^verbatim>\<open>alloc\<close> assigns the size, the two flags and, for a double-buffered instance,
  \<^verbatim>\<open>m_currentWrite\<close>, before it allocates anything. An exception of \<^verbatim>\<open>new[]\<close>
  leaves \<^verbatim>\<open>alloc\<close> with these members assigned and nothing allocated.
\<close>

definition alloc ::
  "64 word \<Rightarrow> bool \<Rightarrow> bool \<Rightarrow> bool \<Rightarrow> gpu_array \<Rightarrow> 'a world \<Rightarrow> abort + gpu_array \<times> 'a world"
  where
  "alloc sz vbo doubleBuffer useElementArray g w =
     (let g1 = g\<lparr>m_size := sz, m_useVBO := vbo, m_doubleBuffer := doubleBuffer\<rparr>;
          g2 = (if m_doubleBuffer g1 then g1\<lparr>m_currentWrite := 1\<rparr> else g1)
      in then_do (allocHost g2 w)
           (\<lambda>(g3, w3). if vbo then allocVbo useElementArray g3 w3 else allocDevice g3 w3))"

subsection \<open>Release\<close>

definition freeHost :: "gpu_array \<Rightarrow> 'a world \<Rightarrow> abort + gpu_array \<times> 'a world" where
  "freeHost g w =
     (if m_hptr g \<noteq> 0
      then then_do (delete_array (m_hptr g) w) (\<lambda>w1. Inr (g\<lparr>m_hptr := 0\<rparr>, w1))
      else Inr (g, w))"

definition freeDevice :: "gpu_array \<Rightarrow> 'a world \<Rightarrow> abort + gpu_array \<times> 'a world" where
  "freeDevice g w =
     then_do
       (if at2 (m_dptr g) 0 \<noteq> DevNull
        then (case cudaFree (at2 (m_dptr g) 0) w of
                (err0, w0) \<Rightarrow> cutilSafeCall err0 (g\<lparr>m_dptr := set2 (m_dptr g) 0 DevNull\<rparr>, w0))
        else Inr (g, w))
       (\<lambda>(g0, w0).
          if at2 (m_dptr g0) 1 \<noteq> DevNull
          then (case cudaFree (at2 (m_dptr g0) 1) w0 of
                  (err1, w1) \<Rightarrow>
                    cutilSafeCall err1 (g0\<lparr>m_dptr := set2 (m_dptr g0) 1 DevNull\<rparr>, w1))
          else Inr (g0, w0))"

definition freeVbo :: "gpu_array \<Rightarrow> 'a world \<Rightarrow> abort + gpu_array \<times> 'a world" where
  "freeVbo g w =
     then_do
       (if at2 (m_vbo g) 0 \<noteq> 0
        then (case cudaGLUnregisterBufferObject (at2 (m_vbo g) 0) w of
                (err0, w0) \<Rightarrow>
                  then_do (cutilSafeCall err0 w0)
                    (\<lambda>w0. Inr (g\<lparr>m_vbo := set2 (m_vbo g) 0 0\<rparr>,
                               glDeleteBuffers (at2 (m_vbo g) 0) w0)))
        else Inr (g, w))
       (\<lambda>(g0, w0).
          if at2 (m_vbo g0) 1 \<noteq> 0
          then (case cudaGLUnregisterBufferObject (at2 (m_vbo g0) 1) w0 of
                  (err1, w1) \<Rightarrow>
                    then_do (cutilSafeCall err1 w1)
                      (\<lambda>w1. Inr (g0\<lparr>m_vbo := set2 (m_vbo g0) 1 0\<rparr>,
                                 glDeleteBuffers (at2 (m_vbo g0) 1) w1)))
          else Inr (g0, w0))"

text \<open>
  The condition of \<^verbatim>\<open>free()\<close> is \<^verbatim>\<open>if (m_vbo)\<close>: the member array itself, which
  converts to the address of its first element. That address is never null, whatever
  the array holds.
\<close>

definition array_to_bool :: "'b \<times> 'b \<Rightarrow> bool" where
  "array_to_bool a = True"

definition free :: "gpu_array \<Rightarrow> 'a world \<Rightarrow> abort + gpu_array \<times> 'a world" where
  "free g w =
     then_do (freeHost g w)
       (\<lambda>(g1, w1). if array_to_bool (m_vbo g1) then freeVbo g1 w1 else freeDevice g1 w1)"

text \<open>The destructor \<^verbatim>\<open>~GpuArray()\<close> calls \<^verbatim>\<open>free()\<close>.\<close>

definition GpuArray_dtor :: "gpu_array \<Rightarrow> 'a world \<Rightarrow> abort + gpu_array \<times> 'a world" where
  "GpuArray_dtor g w = free g w"

subsection \<open>Role swap, mapping, transfer\<close>

definition swap :: "gpu_array \<Rightarrow> gpu_array" where
  "swap g = g\<lparr>m_currentRead := m_currentWrite g, m_currentWrite := m_currentRead g\<rparr>"

definition map_GpuArray :: "gpu_array \<Rightarrow> 'a world \<Rightarrow> abort + gpu_array \<times> 'a world" where
  "map_GpuArray g w =
     then_do
       (if at2 (m_vbo g) 0 \<noteq> 0
        then (case cudaGLMapBufferObject (at2 (m_vbo g) 0) w of
                (err0, p0, w0) \<Rightarrow>
                  cutilSafeCall err0 (g\<lparr>m_dptr := set2 (m_dptr g) 0 p0\<rparr>, w0))
        else Inr (g, w))
       (\<lambda>(g0, w0).
          if m_doubleBuffer g0 \<and> at2 (m_vbo g0) 1 \<noteq> 0
          then (case cudaGLMapBufferObject (at2 (m_vbo g0) 1) w0 of
                  (err1, p1, w1) \<Rightarrow>
                    cutilSafeCall err1 (g0\<lparr>m_dptr := set2 (m_dptr g0) 1 p1\<rparr>, w1))
          else Inr (g0, w0))"

definition unmap :: "gpu_array \<Rightarrow> 'a world \<Rightarrow> abort + gpu_array \<times> 'a world" where
  "unmap g w =
     then_do
       (if at2 (m_vbo g) 0 \<noteq> 0
        then (case cudaGLUnmapBufferObject (at2 (m_vbo g) 0) w of
                (err0, w0) \<Rightarrow>
                  cutilSafeCall err0 (g\<lparr>m_dptr := set2 (m_dptr g) 0 DevNull\<rparr>, w0))
        else Inr (g, w))
       (\<lambda>(g0, w0).
          if m_doubleBuffer g0 \<and> at2 (m_vbo g0) 1 \<noteq> 0
          then (case cudaGLUnmapBufferObject (at2 (m_vbo g0) 1) w0 of
                  (err1, w1) \<Rightarrow>
                    cutilSafeCall err1 (g0\<lparr>m_dptr := set2 (m_dptr g0) 1 DevNull\<rparr>, w1))
          else Inr (g0, w0))"

text \<open>
  \<^verbatim>\<open>copy(dir, start, count)\<close>. \<^verbatim>\<open>start\<close> and \<^verbatim>\<open>count\<close> are \<^verbatim>\<open>uint\<close>, and
  \<^verbatim>\<open>(uint) m_size\<close> keeps the low 32 bits of the size. The results of the two calls
  of \<^verbatim>\<open>cudaSetDevice\<close> are not looked at.
\<close>

definition copy ::
  "Direction \<Rightarrow> 32 word \<Rightarrow> 32 word \<Rightarrow> gpu_array \<Rightarrow> 'a world \<Rightarrow> abort + gpu_array \<times> 'a world"
  where
  "copy dir start count g w =
     (let count1 = (if count = 0 then ucast (m_size g) else count);
          w1 = snd (cudaSetDevice (renderDevID w) w)
      in then_do (map_GpuArray g w1)
           (\<lambda>(g2, w2).
              case (case dir of
                      HOST_TO_DEVICE \<Rightarrow>
                        cudaMemcpy (DevAddr (at2 (m_dptr g2) (m_currentRead g2)) (unat start))
                          (HostAddr (m_hptr g2) (unat start)) (unat count1)
                          cudaMemcpyHostToDevice w2
                    | DEVICE_TO_HOST \<Rightarrow>
                        cudaMemcpy (HostAddr (m_hptr g2) (unat start))
                          (DevAddr (at2 (m_dptr g2) (m_currentRead g2)) (unat start))
                          (unat count1) cudaMemcpyDeviceToHost w2) of
                (err3, w3) \<Rightarrow>
                  then_do (cutilSafeCall err3 w3)
                    (\<lambda>w3. then_do (unmap g2 w3)
                             (\<lambda>(g4, w4). Inr (g4, snd (cudaSetDevice (devID w4) w4))))))"

text \<open>The body of \<^verbatim>\<open>memset(value, start, count)\<close> is empty.\<close>

definition memset ::
  "'a \<Rightarrow> 32 word \<Rightarrow> 32 word \<Rightarrow> gpu_array \<Rightarrow> 'a world \<Rightarrow> gpu_array \<times> 'a world" where
  "memset val start count g w = (g, w)"

section \<open>Sequences of calls and the properties examined\<close>

text \<open>The public operations of the class, and a run of them on one instance.\<close>

datatype 'a op =
    Alloc "64 word" bool bool bool
  | Free
  | Swap
  | Map
  | Unmap
  | Copy Direction "32 word" "32 word"
  | Memset 'a "32 word" "32 word"

fun apply_op :: "'a op \<Rightarrow> gpu_array \<times> 'a world \<Rightarrow> abort + gpu_array \<times> 'a world" where
  "apply_op (Alloc sz vbo db ea) (g, w) = alloc sz vbo db ea g w"
| "apply_op Free (g, w) = free g w"
| "apply_op Swap (g, w) = Inr (swap g, w)"
| "apply_op Map (g, w) = map_GpuArray g w"
| "apply_op Unmap (g, w) = unmap g w"
| "apply_op (Copy dir start count) (g, w) = copy dir start count g w"
| "apply_op (Memset val start count) (g, w) = Inr (memset val start count g w)"

fun is_alloc :: "'a op \<Rightarrow> bool" where
  "is_alloc (Alloc sz vbo db ea) = True"
| "is_alloc x = False"

fun run_ops :: "'a op list \<Rightarrow> gpu_array \<times> 'a world \<Rightarrow> abort + gpu_array \<times> 'a world" where
  "run_ops [] s = Inr s"
| "run_ops (x # xs) s = then_do (apply_op x s) (run_ops xs)"

text \<open>Every state a run passes through, the first one included, up to the end or an abort.\<close>

fun trace_ops :: "'a op list \<Rightarrow> gpu_array \<times> 'a world \<Rightarrow> (gpu_array \<times> 'a world) list" where
  "trace_ops [] s = [s]"
| "trace_ops (x # xs) s =
     s # (case apply_op x s of Inl e \<Rightarrow> [] | Inr s' \<Rightarrow> trace_ops xs s')"

definition ok_state :: "abort + 's \<Rightarrow> 's option" where
  "ok_state r = (case r of Inl e \<Rightarrow> None | Inr s \<Rightarrow> Some s)"

text \<open>What is left of a run that did not abort, and single blocks of its world.\<close>

definition array_of :: "abort + gpu_array \<times> 'a world \<Rightarrow> gpu_array option" where
  "array_of r = map_option fst (ok_state r)"

definition world_of :: "abort + gpu_array \<times> 'a world \<Rightarrow> 'a world option" where
  "world_of r = map_option snd (ok_state r)"

definition dev_block :: "nat \<Rightarrow> 'a world \<Rightarrow> 'a list option" where
  "dev_block b w = dev_heap w b"

definition host_block :: "nat \<Rightarrow> 'a world \<Rightarrow> 'a list option" where
  "host_block p w = host_heap w p"

text \<open>The invariant of the two role indices.\<close>

definition role_inv :: "gpu_array \<Rightarrow> bool" where
  "role_inv g \<longleftrightarrow>
     (if m_doubleBuffer g
      then {m_currentRead g, m_currentWrite g} = {0, 1} \<and> m_currentRead g \<noteq> m_currentWrite g
      else m_currentRead g = 0 \<and> m_currentWrite g = 0)"

text \<open>Which members two instances share.\<close>

definition same_but_dptr :: "gpu_array \<Rightarrow> gpu_array \<Rightarrow> bool" where
  "same_but_dptr g g' \<longleftrightarrow>
     m_size g' = m_size g \<and> m_vbo g' = m_vbo g \<and> m_hptr g' = m_hptr g \<and>
     m_useVBO g' = m_useVBO g \<and> m_doubleBuffer g' = m_doubleBuffer g \<and>
     m_currentRead g' = m_currentRead g \<and> m_currentWrite g' = m_currentWrite g"

definition same_but_vbo :: "gpu_array \<Rightarrow> gpu_array \<Rightarrow> bool" where
  "same_but_vbo g g' \<longleftrightarrow>
     m_size g' = m_size g \<and> m_dptr g' = m_dptr g \<and> m_hptr g' = m_hptr g \<and>
     m_useVBO g' = m_useVBO g \<and> m_doubleBuffer g' = m_doubleBuffer g \<and>
     m_currentRead g' = m_currentRead g \<and> m_currentWrite g' = m_currentWrite g"

definition same_roles :: "gpu_array \<Rightarrow> gpu_array \<Rightarrow> bool" where
  "same_roles g g' \<longleftrightarrow>
     m_doubleBuffer g' = m_doubleBuffer g \<and>
     m_currentRead g' = m_currentRead g \<and> m_currentWrite g' = m_currentWrite g"

text \<open>The \<^verbatim>\<open>switch\<close> of \<^verbatim>\<open>copy\<close> on its own: the one call of \<^verbatim>\<open>cudaMemcpy\<close>.\<close>

definition transfer ::
  "Direction \<Rightarrow> nat \<Rightarrow> nat \<Rightarrow> gpu_array \<Rightarrow> 'a world \<Rightarrow> cudaError \<times> 'a world" where
  "transfer dir s n g w =
     (case dir of
        HOST_TO_DEVICE \<Rightarrow>
          cudaMemcpy (DevAddr (at2 (m_dptr g) (m_currentRead g)) s) (HostAddr (m_hptr g) s) n
            cudaMemcpyHostToDevice w
      | DEVICE_TO_HOST \<Rightarrow>
          cudaMemcpy (HostAddr (m_hptr g) s) (DevAddr (at2 (m_dptr g) (m_currentRead g)) s) n
            cudaMemcpyDeviceToHost w)"

text \<open>
  \<^verbatim>\<open>swap()\<close> as the specification words it: an exchange of the two indices, defined on a
  double-buffered instance only, a usage error on any other.
\<close>

datatype usage_error = UsageError

definition swap_spec :: "gpu_array \<Rightarrow> usage_error + gpu_array" where
  "swap_spec g =
     (if m_doubleBuffer g
      then Inr (g\<lparr>m_currentRead := m_currentWrite g, m_currentWrite := m_currentRead g\<rparr>)
      else Inl UsageError)"

text \<open>
  An instance backed by buffer objects: slot 0 has one, slot 1 has one when the instance
  is double-buffered, and the indices are in their roles.
\<close>

definition vbo_backed :: "gpu_array \<Rightarrow> bool" where
  "vbo_backed g \<longleftrightarrow>
     at2 (m_vbo g) 0 \<noteq> 0 \<and> (m_doubleBuffer g \<longrightarrow> at2 (m_vbo g) 1 \<noteq> 0) \<and> role_inv g"

text \<open>The device settings that no member function writes.\<close>

definition same_devices :: "'a world \<Rightarrow> 'a world \<Rightarrow> bool" where
  "same_devices w w' \<longleftrightarrow>
     devID w' = devID w \<and> renderDevID w' = renderDevID w \<and>
     device_count w' = device_count w \<and> discard w' = discard w"

subsection \<open>Concrete states\<close>

text \<open>
  A machine with three devices, device 2 current, \<^verbatim>\<open>devID\<close> 0 and \<^verbatim>\<open>renderDevID\<close> 1,
  and nothing allocated.
\<close>

definition demo_world :: "int world" where
  "demo_world =
     \<lparr>host_heap = Map.empty, dev_heap = Map.empty, gl_buffers = Map.empty,
      gl_array_binding = 0, gl_element_binding = 0, next_handle = 10, host_avail = 1000,
      dev_avail = 1000,
      device_count = 3, cur_device = 2, devID = 0, renderDevID = 1,
      uninit = (\<lambda>i. 0), discard = (\<lambda>x. x)\<rparr>"

text \<open>What \<^verbatim>\<open>alloc(4, false, true)\<close> makes of a new instance there.\<close>

definition demo_array :: gpu_array where
  "demo_array =
     \<lparr>m_size = 4, m_dptr = (DevBlock 12, DevBlock 13), m_vbo = (0, 0), m_hptr = 11,
      m_useVBO = False, m_doubleBuffer = True, m_currentRead = 0, m_currentWrite = 1\<rparr>"

definition demo_array_world :: "int world" where
  "demo_array_world =
     demo_world\<lparr>host_heap := [11 \<mapsto> [0, 0, 0, 0]],
                dev_heap := [12 \<mapsto> [0, 0, 0, 0], 13 \<mapsto> [0, 0, 0, 0]],
                next_handle := 13, host_avail := 996, dev_avail := 992\<rparr>"

text \<open>What \<^verbatim>\<open>alloc(4, true, true)\<close> makes of a new instance there.\<close>

definition demo_vbo_array :: gpu_array where
  "demo_vbo_array =
     \<lparr>m_size = 4, m_dptr = (DevNull, DevNull), m_vbo = (12, 13), m_hptr = 11,
      m_useVBO = True, m_doubleBuffer = True, m_currentRead = 0, m_currentWrite = 1\<rparr>"

definition demo_vbo_world :: "int world" where
  "demo_vbo_world =
     demo_world\<lparr>host_heap := [11 \<mapsto> [0, 0, 0, 0]],
                gl_buffers :=
                  [12 \<mapsto> \<lparr>gl_data = [0, 0, 0, 0], registered = True, write_discard = True,
                           mapped = False\<rparr>,
                   13 \<mapsto> \<lparr>gl_data = [0, 0, 0, 0], registered = True, write_discard = True,
                           mapped = False\<rparr>],
                next_handle := 13, host_avail := 996\<rparr>"

text \<open>The same two instances with data in the host array and in the device slots.\<close>

definition demo_data_world :: "int world" where
  "demo_data_world =
     demo_array_world\<lparr>host_heap := [11 \<mapsto> [10, 20, 30, 40]],
                      dev_heap := [12 \<mapsto> [1, 2, 3, 4], 13 \<mapsto> [5, 6, 7, 8]]\<rparr>"

definition demo_buffer :: "int list \<Rightarrow> bool \<Rightarrow> int glbuffer" where
  "demo_buffer d m = \<lparr>gl_data = d, registered = True, write_discard = True, mapped = m\<rparr>"

definition demo_vbo_data_world :: "int world" where
  "demo_vbo_data_world =
     demo_vbo_world\<lparr>host_heap := [11 \<mapsto> [10, 20, 30, 40]],
                    gl_buffers := [12 \<mapsto> demo_buffer [1, 2, 3, 4] False,
                                   13 \<mapsto> demo_buffer [5, 6, 7, 8] False]\<rparr>"

text \<open>
  The buffer-object instance after \<^verbatim>\<open>swap\<close> and \<^verbatim>\<open>map\<close>; the world then, after a
  device write to the read buffer, and after \<^verbatim>\<open>unmap\<close>.
\<close>

definition demo_mapped_array :: gpu_array where
  "demo_mapped_array =
     demo_vbo_array\<lparr>m_dptr := (VboBlock 12, VboBlock 13), m_currentRead := 1,
                    m_currentWrite := 0\<rparr>"

definition demo_mapped_world :: "int world" where
  "demo_mapped_world =
     demo_vbo_data_world\<lparr>gl_buffers := [12 \<mapsto> demo_buffer [1, 2, 3, 4] True,
                                        13 \<mapsto> demo_buffer [5, 6, 7, 8] True]\<rparr>"

definition demo_written_world :: "int world" where
  "demo_written_world =
     demo_vbo_data_world\<lparr>gl_buffers := [12 \<mapsto> demo_buffer [1, 2, 3, 4] True,
                                        13 \<mapsto> demo_buffer [9, 9, 9, 9] True]\<rparr>"

definition demo_unmapped_world :: "int world" where
  "demo_unmapped_world =
     demo_vbo_data_world\<lparr>gl_buffers := [12 \<mapsto> demo_buffer [1, 2, 3, 4] False,
                                        13 \<mapsto> demo_buffer [9, 9, 9, 9] False]\<rparr>"

text \<open>A driver that leaves zeros in a buffer mapped with the write-discard flag.\<close>

definition demo_discard_world :: "int world" where
  "demo_discard_world = demo_vbo_data_world\<lparr>discard := (\<lambda>x. 0)\<rparr>"

text \<open>
  The operations that leave an allocation in place and usable: they neither allocate nor
  release, and leave no buffer object mapped.
\<close>

fun keeps_allocation :: "'a op \<Rightarrow> bool" where
  "keeps_allocation Swap = True"
| "keeps_allocation (Copy dir start count) = True"
| "keeps_allocation (Memset val start count) = True"
| "keeps_allocation x = False"

text \<open>
  A buffer of \<open>2^32\<close> elements, one more than a \<^verbatim>\<open>uint\<close> can count: a
  single-buffered instance in device memory, its host array all ones, its device slot
  all zeros.
\<close>

definition big_block :: "int \<Rightarrow> int list" where
  "big_block x = replicate (2 ^ 32) x"

definition big_array :: gpu_array where
  "big_array =
     \<lparr>m_size = 2 ^ 32, m_dptr = (DevBlock 12, DevNull), m_vbo = (0, 0), m_hptr = 11,
      m_useVBO = False, m_doubleBuffer = False, m_currentRead = 0, m_currentWrite = 0\<rparr>"

definition big_world :: "int world" where
  "big_world =
     demo_world\<lparr>host_heap := [11 \<mapsto> big_block 1], dev_heap := [12 \<mapsto> big_block 0],
                next_handle := 12\<rparr>"

subsection \<open>Allocated buffers and their contents\<close>

text \<open>
  The host array of an instance and the contents of its device slot \<open>i\<close>: of the block
  of \<^verbatim>\<open>cudaMalloc\<close>, or of the buffer object. \<open>slot_view\<close> is what a transfer finds in
  the slot once \<^verbatim>\<open>copy\<close> has mapped it: the write-discard flag of a buffer object lets
  the driver replace its contents.
\<close>

definition host_data :: "gpu_array \<Rightarrow> 'a world \<Rightarrow> 'a list option" where
  "host_data g w = host_read (m_hptr g) w"

definition slot_data :: "gpu_array \<Rightarrow> 'a world \<Rightarrow> nat \<Rightarrow> 'a list option" where
  "slot_data g w i =
     (if m_useVBO g then map_option gl_data (gl_buffers w (at2 (m_vbo g) i))
      else (case at2 (m_dptr g) i of
              DevNull \<Rightarrow> None
            | DevBlock b \<Rightarrow> dev_heap w b
            | VboBlock v \<Rightarrow> None))"

definition discards :: "gpu_array \<Rightarrow> 'a world \<Rightarrow> nat \<Rightarrow> bool" where
  "discards g w i \<longleftrightarrow>
     m_useVBO g \<and>
     (case gl_buffers w (at2 (m_vbo g) i) of None \<Rightarrow> False | Some b \<Rightarrow> write_discard b)"

definition slot_view :: "gpu_array \<Rightarrow> 'a world \<Rightarrow> nat \<Rightarrow> 'a list option" where
  "slot_view g w i =
     map_option (\<lambda>d. if discards g w i then map (discard w) d else d) (slot_data g w i)"

text \<open>
  Slot \<open>i\<close> is in the state \<^verbatim>\<open>alloc\<close> leaves it in: a registered, unmapped buffer
  object of the size of the array and a null device pointer, or else no buffer object and
  a device block of that size.
\<close>

definition slot_ok :: "gpu_array \<Rightarrow> 'a world \<Rightarrow> nat \<Rightarrow> bool" where
  "slot_ok g w i \<longleftrightarrow>
     (if m_useVBO g
      then at2 (m_vbo g) i \<noteq> 0 \<and> at2 (m_dptr g) i = DevNull \<and>
           (case gl_buffers w (at2 (m_vbo g) i) of
              None \<Rightarrow> False
            | Some b \<Rightarrow> registered b \<and> \<not> mapped b \<and> length (gl_data b) = unat (m_size g))
      else at2 (m_vbo g) i = 0 \<and>
           (case at2 (m_dptr g) i of
              DevNull \<Rightarrow> False
            | DevBlock b \<Rightarrow>
                (case dev_heap w b of None \<Rightarrow> False | Some d \<Rightarrow> length d = unat (m_size g))
            | VboBlock v \<Rightarrow> False))"

text \<open>
  An allocated buffer: the host array and slot 0 are there, with \<^verbatim>\<open>m_size\<close> elements;
  a double-buffered instance has slot 1 as well, on a buffer object of its own, and reads
  slot 0 or 1; any other instance reads slot 0.
\<close>

definition allocated :: "gpu_array \<Rightarrow> 'a world \<Rightarrow> bool" where
  "allocated g w \<longleftrightarrow>
     (case host_data g w of None \<Rightarrow> False | Some h \<Rightarrow> length h = unat (m_size g)) \<and>
     slot_ok g w 0 \<and>
     (if m_doubleBuffer g
      then slot_ok g w 1 \<and> m_currentRead g < 2 \<and>
           (m_useVBO g \<longrightarrow> at2 (m_vbo g) 1 \<noteq> at2 (m_vbo g) 0)
      else m_currentRead g = 0)"

text \<open>
  \<open>moved src dst dst' s n\<close>: \<open>dst'\<close> is \<open>dst\<close> with exactly the \<open>n\<close> elements from
  offset \<open>s\<close> on taken from \<open>src\<close>, at the same offsets.
\<close>

definition moved :: "'a list \<Rightarrow> 'a list \<Rightarrow> 'a list \<Rightarrow> nat \<Rightarrow> nat \<Rightarrow> bool" where
  "moved src dst dst' s n \<longleftrightarrow>
     length dst' = length dst \<and>
     (\<forall>i < length dst. dst' ! i = (if s \<le> i \<and> i < s + n then src ! i else dst ! i))"

text \<open>The number of elements \<^verbatim>\<open>copy\<close> asks \<^verbatim>\<open>cudaMemcpy\<close> for.\<close>

definition copy_count :: "gpu_array \<Rightarrow> 32 word \<Rightarrow> nat" where
  "copy_count g count = unat (if count = 0 then ucast (m_size g) else count)"

text \<open>A registered buffer object once \<^verbatim>\<open>cudaGLMapBufferObject\<close> has mapped it.\<close>

definition after_map :: "'a world \<Rightarrow> 'a glbuffer \<Rightarrow> 'a glbuffer" where
  "after_map w b =
     b\<lparr>gl_data := (if write_discard b then map (discard w) (gl_data b) else gl_data b),
       mapped := True\<rparr>"

text \<open>The host array and slot \<open>i\<close> of a state.\<close>

definition seen_host :: "gpu_array \<times> 'a world \<Rightarrow> 'a list option" where
  "seen_host s = host_data (fst s) (snd s)"

definition seen_slot :: "nat \<Rightarrow> gpu_array \<times> 'a world \<Rightarrow> 'a list option" where
  "seen_slot i s = slot_data (fst s) (snd s) i"

section \<open>The snapshot hand-off of \<^verbatim>\<open>main.cpp\<close>\<close>

text \<open>
  \<^verbatim>\<open>main\<close> runs two OpenMP threads. Thread 0 runs \<^verbatim>\<open>tree->iterate()\<close> and then sets
  \<^verbatim>\<open>simulationFinished\<close>; the other polls the global \<^verbatim>\<open>ioSharedData\<close> and writes
  each snapshot it finds there.
\<close>

text \<open>
  Modelled from the spec: the type \<^verbatim>\<open>IOSharedData_t\<close>, which is declared outside
  \<^verbatim>\<open>src/\<close>. Its members are those \<^verbatim>\<open>main\<close> uses: the flag, the element count, the
  time tag and three arrays, each a pointer that may be null. The time is a
  \<^verbatim>\<open>float\<close> that is only copied, so its type is left open.
\<close>

record ('v, 'i, 't) IOSharedData_t =
  writingFinished :: bool
  nBodies :: int
  t_current :: 't
  Pos :: "'v list option"
  Vel :: "'v list option"
  IDs :: "'i list option"

text \<open>
  Modelled from the spec: \<^verbatim>\<open>IOSharedData_t::free()\<close>, which is defined outside
  \<^verbatim>\<open>src/\<close>. It releases the slot, that is the three arrays. It does not touch the
  flag: \<^verbatim>\<open>main\<close> asserts so right after the call. The loop below does not depend on
  it: it takes \<^verbatim>\<open>free()\<close> as a parameter \<open>fr\<close>, any function on the slot, and
  \<open>IOSharedData_free\<close> is used for the runs on concrete data only.
\<close>

definition IOSharedData_free ::
  "('v, 'i, 't) IOSharedData_t \<Rightarrow> ('v, 'i, 't) IOSharedData_t" where
  "IOSharedData_free sh = sh\<lparr>Pos := None, Vel := None, IDs := None\<rparr>"

text \<open>
  The producer's publish happens inside \<^verbatim>\<open>tree->iterate()\<close>, outside \<^verbatim>\<open>src/\<close>. It
  populates the slot and then sets \<^verbatim>\<open>writingFinished\<close> to false. It is used for the
  runs on concrete data only.
\<close>

text \<open>Modelled from the spec: the payload of a publish.\<close>

record ('v, 'i, 't) snapshot =
  s_count :: int
  s_time :: 't
  s_positions :: "'v list"
  s_velocities :: "'v list"
  s_identifiers :: "'i list"

text \<open>Modelled from the spec: the publish itself.\<close>

definition publish ::
  "('v, 'i, 't) snapshot \<Rightarrow> ('v, 'i, 't) IOSharedData_t \<Rightarrow> ('v, 'i, 't) IOSharedData_t" where
  "publish p sh =
     sh\<lparr>nBodies := s_count p, t_current := s_time p, Pos := Some (s_positions p),
        Vel := Some (s_velocities p), IDs := Some (s_identifiers p),
        writingFinished := False\<rparr>"

text \<open>
  The two writers are collaborators outside \<^verbatim>\<open>src/\<close>. A call is recorded with its
  arguments. The file name is \<^verbatim>\<open>sprintf\<close> of the base name and the time, and of the
  process number when there are more than 16 processes.
\<close>

datatype writer = write_dumbp_snapshot_parallel | write_snapshot_per_process

datatype 't snapshot_name = NameTime string 't | NameTimeProc string 't int

record ('v, 'i, 't) write_call =
  by_writer :: writer
  w_Pos :: "'v list option"
  w_Vel :: "'v list option"
  w_IDs :: "'i list option"
  w_n :: int
  w_fileName :: "'t snapshot_name"
  w_time :: 't

record io_config =
  nProcs :: int
  procId :: int
  snapshotFile :: string

text \<open>
  What the I/O thread works on: the shared slot, the calls of the writers so far, and
  the microseconds spent in \<^verbatim>\<open>sleep\<close> and \<^verbatim>\<open>usleep\<close>.
\<close>

record ('v, 'i, 't) io_state =
  shared :: "('v, 'i, 't) IOSharedData_t"
  disk :: "('v, 'i, 't) write_call list"
  slept_us :: nat

datatype io_abort = AssertionFailed

text \<open>The call of a writer in the loop body, on the values read from the slot.\<close>

definition write_snapshot ::
  "io_config \<Rightarrow> ('v, 'i, 't) io_state \<Rightarrow> ('v, 'i, 't) io_state" where
  "write_snapshot cfg s =
     (let n = nBodies (shared s);
          t = t_current (shared s)
      in if nProcs cfg \<le> 16
         then s\<lparr>disk := disk s @
                  [\<lparr>by_writer = write_dumbp_snapshot_parallel, w_Pos = Pos (shared s),
                    w_Vel = Vel (shared s), w_IDs = IDs (shared s), w_n = n,
                    w_fileName = NameTime (snapshotFile cfg) t, w_time = t\<rparr>]\<rparr>
         else s\<lparr>disk := disk s @
                  [\<lparr>by_writer = write_snapshot_per_process, w_Pos = Pos (shared s),
                    w_Vel = Vel (shared s), w_IDs = IDs (shared s), w_n = n,
                    w_fileName = NameTimeProc (snapshotFile cfg) t (procId cfg),
                    w_time = t\<rparr>]\<rparr>)"

definition usleep :: "nat \<Rightarrow> ('v, 'i, 't) io_state \<Rightarrow> ('v, 'i, 't) io_state" where
  "usleep us s = s\<lparr>slept_us := slept_us s + us\<rparr>"

text \<open>
  One pass through the body of \<^verbatim>\<open>while(!simulationFinished)\<close>: one consume attempt.
  A failed \<^verbatim>\<open>assert\<close> ends the process.
\<close>

definition io_poll ::
  "(('v, 'i, 't) IOSharedData_t \<Rightarrow> ('v, 'i, 't) IOSharedData_t) \<Rightarrow> io_config \<Rightarrow>
   ('v, 'i, 't) io_state \<Rightarrow> io_abort + ('v, 'i, 't) io_state" where
  "io_poll fr cfg s =
     (if writingFinished (shared s) = False
      then (let s1 = write_snapshot cfg s;
                s2 = s1\<lparr>shared := fr (shared s1)\<rparr>
            in if writingFinished (shared s2) = False
               then Inr (s2\<lparr>shared := (shared s2)\<lparr>writingFinished := True\<rparr>\<rparr>)
               else Inl AssertionFailed)
      else Inr (usleep 100 s))"


subsection \<open>The two threads together\<close>

text \<open>
  The parallel region as an interleaving of steps. Thread 0 is in \<^verbatim>\<open>tree->iterate()\<close>
  (\<open>PIterating\<close>), which is outside \<^verbatim>\<open>src/\<close>: there it may change the shared slot
  any number of times and in any way \<open>f\<close>, a publish being one such change;
  \<^verbatim>\<open>iterate\<close> returns or throws; an exception with more than one process ends the
  process in \<^verbatim>\<open>::abort()\<close>; otherwise thread 0 goes on to the assignment
  \<^verbatim>\<open>simulationFinished = true\<close> (\<open>PReturned\<close>) and is done (\<open>PFinished\<close>).
  The I/O thread is at one of the places of its code: before \<^verbatim>\<open>sleep(1)\<close>, at the test
  of the \<^verbatim>\<open>while\<close>, at the test of the flag, before the call of the writer, inside
  the writer, before \<^verbatim>\<open>free()\<close>, before the \<^verbatim>\<open>assert\<close>, before the assignment
  \<^verbatim>\<open>writingFinished = true\<close>, before \<^verbatim>\<open>usleep(100)\<close>, or after the loop. The call of
  the writer is recorded when it returns.
\<close>

datatype producer_pc = PIterating | PReturned | PFinished

datatype consumer_pc =
    CSleep | CLoopTest | CFlagTest | CWrite | CWriting | CFree | CAssert | CSetIdle | CUsleep
  | CExited

text \<open>
  \<open>signals\<close>, \<open>published\<close>, \<open>drains_begun\<close> and \<open>drains_done\<close> only count: the
  assignments to \<^verbatim>\<open>simulationFinished\<close>, the changes thread 0 made to the slot, the
  writer calls begun, and the assignments \<^verbatim>\<open>writingFinished = true\<close> of the I/O
  thread.
\<close>

record ('v, 'i, 't) sys =
  io :: "('v, 'i, 't) io_state"
  simulationFinished :: bool
  ppc :: producer_pc
  cpc :: consumer_pc
  aborted :: bool
  signals :: nat
  published :: nat
  drains_begun :: nat
  drains_done :: nat

datatype ('v, 'i, 't) event =
    Publish "('v, 'i, 't) IOSharedData_t \<Rightarrow> ('v, 'i, 't) IOSharedData_t"
  | IterateReturns
  | IterateThrows
  | SetFinished
  | ConsumerStep

definition consumer_step ::
  "(('v, 'i, 't) IOSharedData_t \<Rightarrow> ('v, 'i, 't) IOSharedData_t) \<Rightarrow> io_config \<Rightarrow>
   ('v, 'i, 't) sys \<Rightarrow> ('v, 'i, 't) sys" where
  "consumer_step fr cfg s =
     (case cpc s of
        CSleep \<Rightarrow> s\<lparr>io := usleep 1000000 (io s), cpc := CLoopTest\<rparr>
      | CLoopTest \<Rightarrow> if \<not> simulationFinished s then s\<lparr>cpc := CFlagTest\<rparr> else s\<lparr>cpc := CExited\<rparr>
      | CFlagTest \<Rightarrow>
          if writingFinished (shared (io s)) = False then s\<lparr>cpc := CWrite\<rparr>
          else s\<lparr>cpc := CUsleep\<rparr>
      | CWrite \<Rightarrow> s\<lparr>cpc := CWriting, drains_begun := drains_begun s + 1\<rparr>
      | CWriting \<Rightarrow> s\<lparr>io := write_snapshot cfg (io s), cpc := CFree\<rparr>
      | CFree \<Rightarrow> s\<lparr>io := (io s)\<lparr>shared := fr (shared (io s))\<rparr>, cpc := CAssert\<rparr>
      | CAssert \<Rightarrow>
          if writingFinished (shared (io s)) = False then s\<lparr>cpc := CSetIdle\<rparr>
          else s\<lparr>aborted := True\<rparr>
      | CSetIdle \<Rightarrow>
          s\<lparr>io := (io s)\<lparr>shared := (shared (io s))\<lparr>writingFinished := True\<rparr>\<rparr>,
            cpc := CLoopTest, drains_done := drains_done s + 1\<rparr>
      | CUsleep \<Rightarrow> s\<lparr>io := usleep 100 (io s), cpc := CLoopTest\<rparr>
      | CExited \<Rightarrow> s)"

text \<open>A step that is not possible where the threads are, or after an abort, changes nothing.\<close>

definition step ::
  "(('v, 'i, 't) IOSharedData_t \<Rightarrow> ('v, 'i, 't) IOSharedData_t) \<Rightarrow> io_config \<Rightarrow>
   ('v, 'i, 't) event \<Rightarrow> ('v, 'i, 't) sys \<Rightarrow> ('v, 'i, 't) sys" where
  "step fr cfg e s =
     (if aborted s then s
      else case e of
        Publish f \<Rightarrow>
          if ppc s = PIterating
          then s\<lparr>io := (io s)\<lparr>shared := f (shared (io s))\<rparr>,
                 published := published s + 1\<rparr>
          else s
      | IterateReturns \<Rightarrow> if ppc s = PIterating then s\<lparr>ppc := PReturned\<rparr> else s
      | IterateThrows \<Rightarrow>
          if ppc s = PIterating
          then (if nProcs cfg > 1 then s\<lparr>aborted := True\<rparr> else s\<lparr>ppc := PReturned\<rparr>)
          else s
      | SetFinished \<Rightarrow>
          if ppc s = PReturned
          then s\<lparr>simulationFinished := True, ppc := PFinished, signals := signals s + 1\<rparr>
          else s
      | ConsumerStep \<Rightarrow> consumer_step fr cfg s)"

fun run ::
  "(('v, 'i, 't) IOSharedData_t \<Rightarrow> ('v, 'i, 't) IOSharedData_t) \<Rightarrow> io_config \<Rightarrow>
   ('v, 'i, 't) event list \<Rightarrow> ('v, 'i, 't) sys \<Rightarrow> ('v, 'i, 't) sys" where
  "run fr cfg [] s = s"
| "run fr cfg (e # es) s = run fr cfg es (step fr cfg e s)"

text \<open>
  The state at \<^verbatim>\<open>#pragma omp parallel\<close>: \<^verbatim>\<open>simulationFinished\<close> is false,
  \<^verbatim>\<open>writingFinished\<close> is true, nothing is written yet.
\<close>

definition init :: "('v, 'i, 't) IOSharedData_t \<Rightarrow> ('v, 'i, 't) sys" where
  "init sh =
     \<lparr>io = \<lparr>shared = sh\<lparr>writingFinished := True\<rparr>, disk = [], slept_us = 0\<rparr>,
      simulationFinished = False, ppc = PIterating, cpc = CSleep, aborted = False,
      signals = 0, published = 0, drains_begun = 0, drains_done = 0\<rparr>"

text \<open>
  The places where the I/O thread is not in the middle of a drain: it has not entered a
  writer since it last set \<^verbatim>\<open>writingFinished = true\<close>.
\<close>

definition between_drains :: "consumer_pc \<Rightarrow> bool" where
  "between_drains c \<longleftrightarrow>
     c = CSleep \<or> c = CLoopTest \<or> c = CFlagTest \<or> c = CWrite \<or> c = CUsleep \<or> c = CExited"

text \<open>A snapshot and an empty slot to run the hand-off on.\<close>

definition demo_snapshot :: "(int, int, int) snapshot" where
  "demo_snapshot =
     \<lparr>s_count = 2, s_time = 5, s_positions = [1, 2], s_velocities = [3, 4],
      s_identifiers = [7, 8]\<rparr>"

definition demo_shared :: "(int, int, int) IOSharedData_t" where
  "demo_shared =
     \<lparr>writingFinished = True, nBodies = 0, t_current = 0, Pos = None, Vel = None, IDs = None\<rparr>"

definition demo_config :: io_config where
  "demo_config = \<lparr>nProcs = 1, procId = 0, snapshotFile = ''snap''\<rparr>"

definition demo_io :: "(int, int, int) io_state" where
  "demo_io = \<lparr>shared = demo_shared, disk = [], slept_us = 0\<rparr>"

text \<open>What holds of the two threads at every moment.\<close>

definition handoff_inv :: "('v, 'i, 't) sys \<Rightarrow> bool" where
  "handoff_inv s \<longleftrightarrow>
     signals s = (if ppc s = PFinished then 1 else 0) \<and>
     (simulationFinished s \<longleftrightarrow> ppc s = PFinished) \<and>
     (cpc s = CExited \<longrightarrow> simulationFinished s) \<and>
     drains_begun s = (if between_drains (cpc s) then drains_done s else drains_done s + 1) \<and>
     length (disk (io s)) = (if cpc s = CWriting then drains_done s else drains_begun s)"

text \<open>The snapshot as the writer is called with it, and the slot after the drain.\<close>

definition demo_call :: "(int, int, int) write_call" where
  "demo_call =
     \<lparr>by_writer = write_dumbp_snapshot_parallel, w_Pos = Some [1, 2], w_Vel = Some [3, 4],
      w_IDs = Some [7, 8], w_n = 2, w_fileName = NameTime ''snap'' 5, w_time = 5\<rparr>"

definition demo_drained :: "(int, int, int) io_state" where
  "demo_drained =
     \<lparr>shared = \<lparr>writingFinished = True, nBodies = 2, t_current = 5, Pos = None, Vel = None,
                IDs = None\<rparr>,
      disk = [demo_call], slept_us = 0\<rparr>"

text \<open>
  A run of the two threads: one snapshot is published, drained and written, then
  \<^verbatim>\<open>iterate\<close> returns, the signal is set and the I/O thread leaves its loop.
\<close>

definition demo_schedule :: "(int, int, int) event list" where
  "demo_schedule =
     [ConsumerStep, Publish (publish demo_snapshot), ConsumerStep, ConsumerStep, ConsumerStep,
      ConsumerStep, ConsumerStep, ConsumerStep, ConsumerStep, IterateReturns, SetFinished,
      ConsumerStep]"

text \<open>
  A run in which \<^verbatim>\<open>iterate\<close> returns and the signal is set while the I/O thread is
  inside the writer, and the four steps with which the I/O thread then ends the drain.
\<close>

definition demo_early_signal :: "(int, int, int) event list" where
  "demo_early_signal =
     [ConsumerStep, Publish (publish demo_snapshot), ConsumerStep, ConsumerStep, ConsumerStep,
      IterateReturns, SetFinished]"

definition demo_finish_drain :: "(int, int, int) event list" where
  "demo_finish_drain = [ConsumerStep, ConsumerStep, ConsumerStep, ConsumerStep]"

text \<open>
  A run in which a snapshot is published while the I/O thread sleeps in \<^verbatim>\<open>usleep\<close>,
  and the signal is set before the I/O thread tests its loop again.
\<close>

definition demo_late_publish :: "(int, int, int) event list" where
  "demo_late_publish =
     [ConsumerStep, ConsumerStep, ConsumerStep, Publish (publish demo_snapshot),
      IterateReturns, SetFinished, ConsumerStep, ConsumerStep]"

section \<open>Basic facts\<close>

lemmas cuda_defs =
  cudaMalloc_def cudaFree_def cudaSetDevice_def host_read_def dev_read_def dev_write_def
  blit_def cudaMemcpy_def glGenBuffers_def bound_buffer_def glBindBuffer_def glBufferData_def
  glDeleteBuffers_def cudaGLRegisterBufferObject_def cudaGLSetBufferObjectMapFlags_def
  cudaGLMapBufferObject_def cudaGLUnmapBufferObject_def cudaGLUnregisterBufferObject_def
  cutilSafeCall_def then_do_def new_array_def delete_array_def fresh_block_def

lemmas ga_defs =
  at2_def set2_def GpuArray_def allocHost_def allocDevice_def createVbo_def allocVbo_def
  alloc_def freeHost_def freeDevice_def freeVbo_def array_to_bool_def free_def swap_def
  map_GpuArray_def unmap_def copy_def memset_def

lemmas demo_defs =
  demo_world_def demo_array_def demo_array_world_def demo_vbo_array_def demo_vbo_world_def
  demo_data_world_def demo_vbo_data_world_def demo_buffer_def

lemmas obs_defs =
  host_data_def slot_data_def slot_view_def discards_def slot_ok_def allocated_def
  copy_count_def ok_state_def getDevicePtr_def getVbo_def getDeviceWritePtr_def
  array_of_def world_of_def dev_block_def host_block_def seen_host_def seen_slot_def

lemmas demo_map_defs =
  demo_mapped_array_def demo_mapped_world_def demo_written_world_def demo_unmapped_world_def

lemma then_do_Inr_iff: "then_do r f = Inr y \<longleftrightarrow> (\<exists>x. r = Inr x \<and> f x = Inr y)"
  by (cases r) (simp_all add: then_do_def)

lemma cutilSafeCall_Inr_iff: "cutilSafeCall e k = Inr y \<longleftrightarrow> e = cudaSuccess \<and> y = k"
  by (auto simp: cutilSafeCall_def)

lemma allocHost_Inr_iff:
  "allocHost g w = Inr (g', w') \<longleftrightarrow>
     unat (m_size g) \<le> host_avail w \<and> g' = g\<lparr>m_hptr := next_handle w + 1\<rparr> \<and>
     w' = w\<lparr>host_heap := (host_heap w)(next_handle w + 1 \<mapsto> fresh_block w (unat (m_size g))),
            host_avail := host_avail w - unat (m_size g),
            next_handle := next_handle w + 1\<rparr>"
  by (auto simp: allocHost_def new_array_def then_do_def Let_def)

lemma alloc_Inr_iff:
  "alloc sz vbo db ea g w = Inr r \<longleftrightarrow>
     (\<exists>g3 w3.
        allocHost (if db then g\<lparr>m_size := sz, m_useVBO := vbo, m_doubleBuffer := db,
                                 m_currentWrite := 1\<rparr>
                   else g\<lparr>m_size := sz, m_useVBO := vbo, m_doubleBuffer := db\<rparr>) w
          = Inr (g3, w3) \<and>
        (if vbo then allocVbo ea g3 w3 else allocDevice g3 w3) = Inr r)"
  by (auto simp: alloc_def Let_def then_do_Inr_iff)

text \<open>
  Where the host has no room for the array, \<^verbatim>\<open>alloc\<close> ends with the exception of
  \<^verbatim>\<open>new[]\<close>, before anything is allocated.
\<close>

lemma alloc_bad_alloc:
  "host_avail w < unat sz \<Longrightarrow> alloc sz vbo db ea g w = Inl Throw_bad_alloc"
  by (simp add: alloc_def allocHost_def new_array_def then_do_def Let_def)

lemma demo_alloc:
  "alloc 4 False True False (GpuArray False False) demo_world
     = Inr (demo_array, demo_array_world)"
  by (simp add: cuda_defs ga_defs demo_world_def demo_array_def demo_array_world_def Let_def
        upt_rec)

lemma demo_vbo_alloc:
  "alloc 4 True True False (GpuArray False False) demo_world
     = Inr (demo_vbo_array, demo_vbo_world)"
  by (simp add: cuda_defs ga_defs demo_world_def demo_vbo_array_def demo_vbo_world_def Let_def
        upt_rec)

subsection \<open>Which members each operation writes\<close>

lemma map_GpuArray_shape:
  assumes "map_GpuArray g w = Inr (g', w')"
  shows "same_but_dptr g g'"
  using assms
  by (auto simp: map_GpuArray_def then_do_Inr_iff cutilSafeCall_Inr_iff same_but_dptr_def
           split: if_splits prod.splits)

lemma unmap_shape:
  assumes "unmap g w = Inr (g', w')"
  shows "same_but_dptr g g'"
  using assms
  by (auto simp: unmap_def then_do_Inr_iff cutilSafeCall_Inr_iff same_but_dptr_def
           split: if_splits prod.splits)

lemma copy_Inr_iff:
  "copy dir start count g w = Inr (g', w') \<longleftrightarrow>
     (\<exists>g2 w2 w3 w4.
        map_GpuArray g (snd (cudaSetDevice (renderDevID w) w)) = Inr (g2, w2) \<and>
        transfer dir (unat start)
          (unat (if count = 0 then ucast (m_size g) else count)) g2 w2 = (cudaSuccess, w3) \<and>
        unmap g2 w3 = Inr (g', w4) \<and>
        w' = snd (cudaSetDevice (devID w4) w4))"
  by (cases dir)
     (auto simp: copy_def Let_def then_do_Inr_iff transfer_def cutilSafeCall_Inr_iff
        case_prod_beta prod_eq_iff)

lemma copy_shape:
  assumes "copy dir start count g w = Inr (g', w')"
  shows "same_but_dptr g g'"
  using assms map_GpuArray_shape unmap_shape
  unfolding copy_Inr_iff same_but_dptr_def by metis

lemma freeHost_roles:
  assumes "freeHost g w = Inr (g', w')"
  shows "same_roles g g'"
  using assms
  by (auto simp: freeHost_def then_do_Inr_iff same_roles_def split: if_splits)

lemma freeVbo_roles:
  assumes "freeVbo g w = Inr (g', w')"
  shows "same_roles g g'"
  using assms
  by (auto simp: freeVbo_def then_do_Inr_iff cutilSafeCall_Inr_iff same_roles_def
           split: if_splits prod.splits)

lemma free_Inr_iff:
  "free g w = Inr (g', w') \<longleftrightarrow>
     (\<exists>g1 w1. freeHost g w = Inr (g1, w1) \<and> freeVbo g1 w1 = Inr (g', w'))"
  by (auto simp: free_def then_do_Inr_iff array_to_bool_def)

lemma free_roles:
  assumes "free g w = Inr (g', w')"
  shows "same_roles g g'"
proof -
  from assms obtain g1 w1
    where a: "freeHost g w = Inr (g1, w1)" and b: "freeVbo g1 w1 = Inr (g', w')"
    by (auto simp: free_Inr_iff)
  from freeHost_roles[OF a] freeVbo_roles[OF b] show ?thesis by (simp add: same_roles_def)
qed

lemma allocDevice_shape:
  assumes "allocDevice g w = Inr (g', w')"
  shows "same_but_dptr g g'"
  using assms
  by (auto simp: allocDevice_def then_do_Inr_iff cutilSafeCall_Inr_iff same_but_dptr_def
           split: if_splits prod.splits)

lemma allocVbo_shape:
  assumes "allocVbo ea g w = Inr (g', w')"
  shows "same_but_vbo g g'"
  using assms
  by (auto simp: allocVbo_def then_do_Inr_iff same_but_vbo_def Let_def
           split: if_splits prod.splits)

lemma alloc_roles:
  assumes "alloc sz vbo db ea g w = Inr (g', w')"
  shows "m_doubleBuffer g' = db \<and> m_currentRead g' = m_currentRead g \<and>
         m_currentWrite g' = (if db then 1 else m_currentWrite g) \<and>
         m_useVBO g' = vbo \<and> m_size g' = sz"
proof (cases vbo)
  case True
  with assms show ?thesis
    by (auto simp: alloc_Inr_iff allocHost_Inr_iff same_but_vbo_def
             dest!: allocVbo_shape split: if_splits)
next
  case False
  with assms show ?thesis
    by (auto simp: alloc_Inr_iff allocHost_Inr_iff same_but_dptr_def
             dest!: allocDevice_shape split: if_splits)
qed

subsection \<open>The role indices\<close>

lemma role_inv_same_roles: "same_roles g g' \<Longrightarrow> role_inv g \<Longrightarrow> role_inv g'"
  by (simp add: same_roles_def role_inv_def)

lemma role_inv_swap: "role_inv g \<Longrightarrow> role_inv (swap g)"
  by (auto simp: role_inv_def swap_def doubleton_eq_iff)

lemma same_but_dptr_roles: "same_but_dptr g g' \<Longrightarrow> same_roles g g'"
  by (simp add: same_but_dptr_def same_roles_def)

lemma apply_op_role_inv:
  assumes "apply_op x (g, w) = Inr (g', w')" and "\<not> is_alloc x" and "role_inv g"
  shows "role_inv g'"
proof (cases x)
  case (Alloc sz vbo db ea)
  with assms(2) show ?thesis by simp
next
  case Free
  with assms(1) have "free g w = Inr (g', w')" by simp
  from role_inv_same_roles[OF free_roles[OF this] assms(3)] show ?thesis .
next
  case Swap
  with assms show ?thesis by (auto intro: role_inv_swap)
next
  case Map
  with assms(1) have "map_GpuArray g w = Inr (g', w')" by simp
  from role_inv_same_roles[OF same_but_dptr_roles[OF map_GpuArray_shape[OF this]] assms(3)]
  show ?thesis .
next
  case Unmap
  with assms(1) have "unmap g w = Inr (g', w')" by simp
  from role_inv_same_roles[OF same_but_dptr_roles[OF unmap_shape[OF this]] assms(3)]
  show ?thesis .
next
  case (Copy dir start count)
  with assms(1) have "copy dir start count g w = Inr (g', w')" by simp
  from role_inv_same_roles[OF same_but_dptr_roles[OF copy_shape[OF this]] assms(3)]
  show ?thesis .
next
  case (Memset val start count)
  with assms show ?thesis by (simp add: memset_def)
qed

lemma trace_ops_role_inv:
  assumes "\<forall>x \<in> set ops. \<not> is_alloc x" and "role_inv (fst s)"
  shows "\<forall>t \<in> set (trace_ops ops s). role_inv (fst t)"
  using assms
proof (induction ops arbitrary: s)
  case Nil
  then show ?case by simp
next
  case (Cons x xs)
  show ?case
  proof (cases "apply_op x s")
    case (Inl e)
    with Cons.prems show ?thesis by simp
  next
    case (Inr s')
    obtain g w g' w' where s: "s = (g, w)" and s': "s' = (g', w')"
      by (cases s, cases s') auto
    from Inr s s' Cons.prems have "role_inv g'"
      using apply_op_role_inv[of x g w g' w'] by simp
    with Cons.IH[of s'] Cons.prems s' have "\<forall>t \<in> set (trace_ops xs s'). role_inv (fst t)"
      by simp
    with Inr Cons.prems show ?thesis by simp
  qed
qed

subsection \<open>Buffer objects of an allocated instance\<close>

lemma createVbo_nonzero:
  assumes "createVbo n ea w = Inr (v, w')"
  shows "v \<noteq> 0"
  using assms
  by (auto simp: createVbo_def glGenBuffers_def Let_def then_do_Inr_iff cutilSafeCall_Inr_iff
           split: prod.splits)

lemma allocVbo_names:
  assumes "allocVbo ea g w = Inr (g', w')"
  shows "at2 (m_vbo g') 0 \<noteq> 0 \<and> (m_doubleBuffer g \<longrightarrow> at2 (m_vbo g') 1 \<noteq> 0)"
proof -
  from assms obtain v0 w0 where c0: "createVbo (unat (m_size g)) ea w = Inr (v0, w0)"
    by (auto simp: allocVbo_def then_do_Inr_iff)
  note n0 = createVbo_nonzero[OF c0]
  show ?thesis
  proof (cases "m_doubleBuffer g")
    case False
    with assms c0 n0 show ?thesis
      by (auto simp: allocVbo_def then_do_def Let_def at2_def set2_def)
  next
    case True
    with assms c0 obtain v1 w1 where
      c1: "createVbo (unat (m_size g)) ea w0 = Inr (v1, w1)" and
      g': "g' = g\<lparr>m_vbo := (v0, v1)\<rparr>"
      by (auto simp: allocVbo_def then_do_Inr_iff Let_def at2_def set2_def)
    from createVbo_nonzero[OF c1] n0 g' show ?thesis by (simp add: at2_def)
  qed
qed

lemma alloc_vbo_backed:
  assumes "alloc sz True db ea (GpuArray u d) w = Inr (g, w')"
  shows "vbo_backed g"
proof -
  from assms obtain g3 w3 where a: "allocVbo ea g3 w3 = Inr (g, w')" and b: "m_doubleBuffer g3 = db"
    by (auto simp: alloc_Inr_iff allocHost_Inr_iff split: if_splits)
  from allocVbo_names[OF a] b alloc_roles[OF assms] show ?thesis
    by (simp add: vbo_backed_def role_inv_def GpuArray_def doubleton_eq_iff)
qed

lemma vbo_backed_swap: "vbo_backed g \<Longrightarrow> vbo_backed (swap g)"
  by (simp add: vbo_backed_def role_inv_swap) (simp add: swap_def)

lemma vbo_backed_swaps: "vbo_backed g \<Longrightarrow> vbo_backed ((swap ^^ k) g)"
  by (induction k) (simp_all add: vbo_backed_swap)

lemma vbo_backed_same: "same_but_dptr g g' \<Longrightarrow> vbo_backed g \<Longrightarrow> vbo_backed g'"
  by (simp add: same_but_dptr_def vbo_backed_def role_inv_def)

lemma vbo_backed_read:
  assumes "vbo_backed g"
  shows "m_currentRead g = 0 \<or> (m_currentRead g = 1 \<and> m_doubleBuffer g)"
    and "m_currentWrite g = 0 \<or> (m_currentWrite g = 1 \<and> m_doubleBuffer g)"
  using assms by (auto simp: vbo_backed_def role_inv_def doubleton_eq_iff split: if_splits)

lemma map_GpuArray_vbo_backed:
  assumes "map_GpuArray g w = Inr (g', w')" and "vbo_backed g"
  shows "at2 (m_dptr g') 0 = VboBlock (at2 (m_vbo g) 0)"
    and "m_doubleBuffer g \<Longrightarrow> at2 (m_dptr g') 1 = VboBlock (at2 (m_vbo g) 1)"
  using assms
  by (auto simp: map_GpuArray_def then_do_Inr_iff cutilSafeCall_Inr_iff vbo_backed_def
        cudaGLMapBufferObject_def at2_def set2_def
      split: if_splits prod.splits option.splits)

lemma unmap_vbo_backed:
  assumes "unmap g w = Inr (g', w')" and "vbo_backed g"
  shows "at2 (m_dptr g') 0 = DevNull"
    and "m_doubleBuffer g \<Longrightarrow> at2 (m_dptr g') 1 = DevNull"
  using assms
  by (auto simp: unmap_def then_do_Inr_iff cutilSafeCall_Inr_iff vbo_backed_def
        at2_def set2_def
      split: if_splits prod.splits)

subsection \<open>The device settings\<close>





lemma same_devices_trans: "same_devices w w' \<Longrightarrow> same_devices w' w'' \<Longrightarrow> same_devices w w''"
  by (simp add: same_devices_def)





subsection \<open>Transfers on an allocated buffer\<close>

lemma length_blit:
  "s + n \<le> length dst \<Longrightarrow> s + n \<le> length src \<Longrightarrow> length (blit dst s src s n) = length dst"
  by (simp add: blit_def)

lemma nth_blit:
  assumes "s + n \<le> length dst" and "s + n \<le> length src" and "i < length dst"
  shows "blit dst s src s n ! i = (if s \<le> i \<and> i < s + n then src ! i else dst ! i)"
  using assms by (auto simp: blit_def nth_append)

lemma moved_blit:
  "s + n \<le> length dst \<Longrightarrow> s + n \<le> length src \<Longrightarrow> moved src dst (blit dst s src s n) s n"
  by (simp add: moved_def length_blit nth_blit)

lemma blit_same:
  assumes "s + n \<le> length h" and "s + n \<le> length v"
    and "\<And>i. s \<le> i \<Longrightarrow> i < s + n \<Longrightarrow> v ! i = h ! i"
  shows "blit h s v s n = h"
  by (rule nth_equalityI) (simp_all add: length_blit nth_blit assms)

lemma map_raw:
  assumes "allocated g w" and "\<not> m_useVBO g"
  shows "map_GpuArray g w' = Inr (g, w')" and "unmap g w' = Inr (g, w')"
  using assms
  by (auto simp: allocated_def slot_ok_def map_GpuArray_def unmap_def then_do_def split: if_splits)


lemma allocated_read_slot:
  assumes "allocated g w"
  shows "slot_ok g w (m_currentRead g)"
  using assms
  by (auto simp: allocated_def less_2_cases_iff split: if_splits)

lemma allocated_host:
  assumes "allocated g w" and "host_data g w = Some h"
  shows "length h = unat (m_size g)"
  using assms by (auto simp: allocated_def split: option.splits)

lemma slot_ok_raw:
  assumes "slot_ok g w i" and "\<not> m_useVBO g"
  obtains b d where "at2 (m_dptr g) i = DevBlock b" and "dev_heap w b = Some d"
    and "length d = unat (m_size g)" and "slot_data g w i = Some d" and "slot_view g w i = Some d"
  using assms
  by (auto simp: slot_ok_def slot_data_def slot_view_def discards_def
           split: devptr.splits option.splits)

lemma setdev_fields [simp]:
  "host_heap (snd (cudaSetDevice d w)) = host_heap w"
  "dev_heap (snd (cudaSetDevice d w)) = dev_heap w"
  "gl_buffers (snd (cudaSetDevice d w)) = gl_buffers w"
  "devID (snd (cudaSetDevice d w)) = devID w"
  "renderDevID (snd (cudaSetDevice d w)) = renderDevID w"
  "discard (snd (cudaSetDevice d w)) = discard w"
  by (simp_all add: cudaSetDevice_def)

lemma copy_raw_h2d:
  assumes a: "allocated g w" and raw: "\<not> m_useVBO g"
    and h: "host_data g w = Some h" and d: "slot_data g w (m_currentRead g) = Some d"
    and n: "unat start + copy_count g count \<le> unat (m_size g)"
  shows "\<exists>w'. copy HOST_TO_DEVICE start count g w = Inr (g, w') \<and> allocated g w' \<and>
           host_data g w' = Some h \<and>
           slot_data g w' (m_currentRead g)
             = Some (blit d (unat start) h (unat start) (copy_count g count)) \<and>
           discard w' = discard w"
proof -
  let ?r = "m_currentRead g"
  from allocated_read_slot[OF a] raw obtain b d0 where
    p: "at2 (m_dptr g) ?r = DevBlock b" and hb: "dev_heap w b = Some d0"
    and ld: "length d0 = unat (m_size g)" and sd: "slot_data g w ?r = Some d0"
    by (rule slot_ok_raw)
  from sd d have dd: "d0 = d" by simp
  from allocated_host[OF a h] have lh: "length h = unat (m_size g)" .
  let ?w1 = "snd (cudaSetDevice (renderDevID w) w)"
  let ?w3 = "?w1\<lparr>dev_heap := (dev_heap ?w1)(b \<mapsto> blit d (unat start) h (unat start) (copy_count g count))\<rparr>"
  let ?w' = "snd (cudaSetDevice (devID ?w3) ?w3)"
  have t: "transfer HOST_TO_DEVICE (unat start) (copy_count g count) g ?w1 = (cudaSuccess, ?w3)"
    using p hb dd ld lh h n
    by (auto simp: transfer_def cudaMemcpy_def dev_read_def host_data_def host_read_def
          dev_write_def split: if_splits)
  have c: "copy HOST_TO_DEVICE start count g w = Inr (g, ?w')"
    unfolding copy_Inr_iff
    using map_raw[OF a raw, of ?w1] map_raw(2)[OF a raw, of ?w3] t
    by (auto simp: copy_count_def)
  have al: "allocated g ?w'"
    using a raw p ld dd lh n
    by (auto simp: allocated_def host_data_def host_read_def slot_ok_def length_blit
          split: devptr.splits option.splits if_splits)
  have "host_data g ?w' = Some h"
    using h by (auto simp: host_data_def host_read_def split: if_splits)
  moreover have "slot_data g ?w' ?r = Some (blit d (unat start) h (unat start) (copy_count g count))"
    using raw p by (simp add: slot_data_def)
  ultimately show ?thesis using c al by auto
qed


lemma copy_raw_d2h:
  assumes a: "allocated g w" and raw: "\<not> m_useVBO g"
    and h: "host_data g w = Some h" and d: "slot_data g w (m_currentRead g) = Some d"
    and n: "unat start + copy_count g count \<le> unat (m_size g)"
  shows "\<exists>w'. copy DEVICE_TO_HOST start count g w = Inr (g, w') \<and> allocated g w' \<and>
           host_data g w'
             = Some (blit h (unat start) d (unat start) (copy_count g count)) \<and>
           slot_data g w' (m_currentRead g) = Some d \<and>
           discard w' = discard w"
proof -
  let ?r = "m_currentRead g"
  from allocated_read_slot[OF a] raw obtain b d0 where
    p: "at2 (m_dptr g) ?r = DevBlock b" and hb: "dev_heap w b = Some d0"
    and ld: "length d0 = unat (m_size g)" and sd: "slot_data g w ?r = Some d0"
    by (rule slot_ok_raw)
  from sd d have dd: "d0 = d" by simp
  from allocated_host[OF a h] have lh: "length h = unat (m_size g)" .
  let ?w1 = "snd (cudaSetDevice (renderDevID w) w)"
  let ?w3 = "?w1\<lparr>host_heap := (host_heap ?w1)(m_hptr g \<mapsto> blit h (unat start) d (unat start) (copy_count g count))\<rparr>"
  let ?w' = "snd (cudaSetDevice (devID ?w3) ?w3)"
  have t: "transfer DEVICE_TO_HOST (unat start) (copy_count g count) g ?w1 = (cudaSuccess, ?w3)"
    using p hb dd ld lh h n
    by (auto simp: transfer_def cudaMemcpy_def dev_read_def host_data_def host_read_def
          split: if_splits)
  have c: "copy DEVICE_TO_HOST start count g w = Inr (g, ?w')"
    unfolding copy_Inr_iff
    using map_raw[OF a raw, of ?w1] map_raw(2)[OF a raw, of ?w3] t
    by (auto simp: copy_count_def)
  have al: "allocated g ?w'"
    using a raw p ld dd lh n h
    by (auto simp: allocated_def host_data_def host_read_def slot_ok_def length_blit
          split: devptr.splits option.splits if_splits)
  have "host_data g ?w' = Some (blit h (unat start) d (unat start) (copy_count g count))"
    using h by (auto simp: host_data_def host_read_def split: if_splits)
  moreover have "slot_data g ?w' ?r = Some d"
    using raw p hb dd by (simp add: slot_data_def)
  ultimately show ?thesis using c al by auto
qed


lemma slot_ok_vbo:
  assumes "slot_ok g w i" and "m_useVBO g"
  obtains b where "at2 (m_vbo g) i \<noteq> 0" and "at2 (m_dptr g) i = DevNull"
    and "gl_buffers w (at2 (m_vbo g) i) = Some b" and "registered b" and "\<not> mapped b"
    and "length (gl_data b) = unat (m_size g)"
  using assms by (auto simp: slot_ok_def split: option.splits)

lemma gpu_array_dptr_id: "m_dptr g = d \<Longrightarrow> g\<lparr>m_dptr := d\<rparr> = g"
  by simp


lemma map_vbo_sb:
  assumes "m_vbo g = (v0, x)" and "v0 \<noteq> 0" and "\<not> m_doubleBuffer g"
    and "gl_buffers w v0 = Some b0" and "registered b0" and "\<not> mapped b0"
  shows "map_GpuArray g w
         = Inr (g\<lparr>m_dptr := (VboBlock v0, snd (m_dptr g))\<rparr>,
                w\<lparr>gl_buffers := (gl_buffers w)(v0 \<mapsto> after_map w b0)\<rparr>)"
  using assms
  by (simp add: map_GpuArray_def at2_def set2_def cudaGLMapBufferObject_def then_do_def
        cutilSafeCall_def after_map_def)

lemma map_vbo_db:
  assumes "m_vbo g = (v0, v1)" and "v0 \<noteq> 0" and "v1 \<noteq> 0" and "v1 \<noteq> v0" and "m_doubleBuffer g"
    and "gl_buffers w v0 = Some b0" and "registered b0" and "\<not> mapped b0"
    and "gl_buffers w v1 = Some b1" and "registered b1" and "\<not> mapped b1"
  shows "map_GpuArray g w
         = Inr (g\<lparr>m_dptr := (VboBlock v0, VboBlock v1)\<rparr>,
                w\<lparr>gl_buffers := (gl_buffers w)(v0 \<mapsto> after_map w b0, v1 \<mapsto> after_map w b1)\<rparr>)"
  using assms
  by (simp add: map_GpuArray_def at2_def set2_def cudaGLMapBufferObject_def then_do_def
        cutilSafeCall_def after_map_def)

lemma unmap_vbo_sb:
  assumes "m_vbo g = (v0, x)" and "v0 \<noteq> 0" and "\<not> m_doubleBuffer g"
    and "gl_buffers w v0 = Some b0" and "registered b0" and "mapped b0"
  shows "unmap g w
         = Inr (g\<lparr>m_dptr := (DevNull, snd (m_dptr g))\<rparr>,
                w\<lparr>gl_buffers := (gl_buffers w)(v0 \<mapsto> b0\<lparr>mapped := False\<rparr>)\<rparr>)"
  using assms
  by (simp add: unmap_def at2_def set2_def cudaGLUnmapBufferObject_def then_do_def
        cutilSafeCall_def)

lemma unmap_vbo_db:
  assumes "m_vbo g = (v0, v1)" and "v0 \<noteq> 0" and "v1 \<noteq> 0" and "v1 \<noteq> v0" and "m_doubleBuffer g"
    and "gl_buffers w v0 = Some b0" and "registered b0" and "mapped b0"
    and "gl_buffers w v1 = Some b1" and "registered b1" and "mapped b1"
  shows "unmap g w
         = Inr (g\<lparr>m_dptr := (DevNull, DevNull)\<rparr>,
                w\<lparr>gl_buffers := (gl_buffers w)(v0 \<mapsto> b0\<lparr>mapped := False\<rparr>,
                                                 v1 \<mapsto> b1\<lparr>mapped := False\<rparr>)\<rparr>)"
  using assms
  by (simp add: unmap_def at2_def set2_def cudaGLUnmapBufferObject_def then_do_def
        cutilSafeCall_def)


lemma copy_eval:
  assumes "map_GpuArray g (snd (cudaSetDevice (renderDevID w) w)) = Inr (g2, w2)"
    and "transfer dir (unat start) (copy_count g count) g2 w2 = (cudaSuccess, w3)"
    and "unmap g2 w3 = Inr (g4, w4)"
  shows "copy dir start count g w = Inr (g4, snd (cudaSetDevice (devID w4) w4))"
  unfolding copy_Inr_iff using assms by (auto simp: copy_count_def)

lemma after_map_fields [simp]:
  "registered (after_map w b) = registered b"
  "mapped (after_map w b) = True"
  "write_discard (after_map w b) = write_discard b"
  "length (gl_data (after_map w b)) = length (gl_data b)"
  by (simp_all add: after_map_def)

lemma after_map_setdev [simp]: "after_map (snd (cudaSetDevice d w)) b = after_map w b"
  by (simp add: after_map_def)

lemma slot_view_vbo:
  assumes "m_useVBO g" and "gl_buffers w (at2 (m_vbo g) i) = Some b"
  shows "slot_view g w i = Some (gl_data (after_map w b))"
  using assms by (simp add: slot_view_def slot_data_def discards_def after_map_def)

lemma copy_vbo_sb:
  assumes a: "allocated g w" and vbo: "m_useVBO g" and sb: "\<not> m_doubleBuffer g"
    and h: "host_data g w = Some h" and v: "slot_view g w (m_currentRead g) = Some v"
    and n: "unat start + copy_count g count \<le> unat (m_size g)"
  shows "\<exists>w'. copy HOST_TO_DEVICE start count g w = Inr (g, w') \<and> allocated g w' \<and>
           host_data g w' = Some h \<and>
           slot_data g w' (m_currentRead g)
             = Some (blit v (unat start) h (unat start) (copy_count g count)) \<and>
           discards g w' (m_currentRead g) = discards g w (m_currentRead g) \<and>
           discard w' = discard w"
    and "\<exists>w'. copy DEVICE_TO_HOST start count g w = Inr (g, w') \<and> allocated g w' \<and>
           host_data g w'
             = Some (blit h (unat start) v (unat start) (copy_count g count)) \<and>
           slot_data g w' (m_currentRead g) = Some v \<and>
           discards g w' (m_currentRead g) = discards g w (m_currentRead g) \<and>
           discard w' = discard w"
proof -
  let ?s = "unat start" and ?n = "copy_count g count"
  from a sb have r: "m_currentRead g = 0" by (simp add: allocated_def)
  from a have "slot_ok g w 0" by (simp add: allocated_def)
  then obtain b where v0: "at2 (m_vbo g) 0 \<noteq> 0" and p0: "at2 (m_dptr g) 0 = DevNull"
    and b: "gl_buffers w (at2 (m_vbo g) 0) = Some b" and rb: "registered b" and mb: "\<not> mapped b"
    and lb: "length (gl_data b) = unat (m_size g)"
    using vbo by (rule slot_ok_vbo)
  from allocated_host[OF a h] have lh: "length h = unat (m_size g)" .
  define v0 where "v0 = fst (m_vbo g)"
  have mv: "m_vbo g = (v0, snd (m_vbo g))" by (simp add: v0_def)
  from v0 have v0n: "v0 \<noteq> 0" by (simp add: at2_def v0_def)
  from b have b': "gl_buffers w v0 = Some b" by (simp add: at2_def v0_def)
  from p0 have pg: "(DevNull, snd (m_dptr g)) = m_dptr g"
    by (simp add: at2_def prod_eq_iff)
  from slot_view_vbo[OF vbo b] v r have vv: "v = gl_data (after_map w b)" by simp
  have lv: "length v = unat (m_size g)" using vv lb by simp
  let ?w1 = "snd (cudaSetDevice (renderDevID w) w)"
  let ?g2 = "g\<lparr>m_dptr := (VboBlock v0, snd (m_dptr g))\<rparr>"
  let ?w2 = "?w1\<lparr>gl_buffers := (gl_buffers ?w1)(v0 \<mapsto> after_map w b)\<rparr>"
  have m: "map_GpuArray g ?w1 = Inr (?g2, ?w2)"
    using map_vbo_sb[OF mv v0n sb, of ?w1 b] b' rb mb by simp
  have hr: "host_read (m_hptr g) ?w2 = Some h"
    using h by (auto simp: host_data_def host_read_def split: if_splits)
  have dr: "dev_read (VboBlock v0) ?w2 = Some v"
    by (simp add: dev_read_def vv)
  \<comment> \<open>host to device\<close>
  let ?b3 = "(after_map w b)\<lparr>gl_data := blit v ?s h ?s ?n\<rparr>"
  let ?w3 = "?w2\<lparr>gl_buffers := (gl_buffers ?w2)(v0 \<mapsto> ?b3)\<rparr>"
  have t: "transfer HOST_TO_DEVICE ?s ?n ?g2 ?w2 = (cudaSuccess, ?w3)"
    using hr dr lv lh n r
    by (simp add: transfer_def cudaMemcpy_def at2_def dev_write_def)
  let ?w4 = "?w3\<lparr>gl_buffers := (gl_buffers ?w3)(v0 \<mapsto> ?b3\<lparr>mapped := False\<rparr>)\<rparr>"
  have u: "unmap ?g2 ?w3 = Inr (g, ?w4)"
    using unmap_vbo_sb[of ?g2 v0 "snd (m_vbo g)" ?w3 ?b3] mv v0n sb rb pg by simp
  let ?w' = "snd (cudaSetDevice (devID ?w4) ?w4)"
  from copy_eval[OF m t u] have c: "copy HOST_TO_DEVICE start count g w = Inr (g, ?w')" .
  have al: "allocated g ?w'"
    using a vbo sb r v0 p0 rb lh lv n h
    by (auto simp: allocated_def slot_ok_def host_data_def host_read_def at2_def v0_def
          length_blit split: if_splits)
  have "host_data g ?w' = Some h"
    using h by (auto simp: host_data_def host_read_def split: if_splits)
  moreover have "slot_data g ?w' (m_currentRead g) = Some (blit v ?s h ?s ?n)"
    using vbo r by (simp add: slot_data_def at2_def v0_def)
  moreover have "discards g ?w' (m_currentRead g) = discards g w (m_currentRead g)"
    using vbo r b' by (simp add: discards_def at2_def v0_def)
  ultimately show "\<exists>w'. copy HOST_TO_DEVICE start count g w = Inr (g, w') \<and> allocated g w' \<and>
           host_data g w' = Some h \<and>
           slot_data g w' (m_currentRead g)
             = Some (blit v (unat start) h (unat start) (copy_count g count)) \<and>
           discards g w' (m_currentRead g) = discards g w (m_currentRead g) \<and>
           discard w' = discard w"
    using c al by auto
  \<comment> \<open>device to host\<close>
  let ?x3 = "?w2\<lparr>host_heap := (host_heap ?w2)(m_hptr g \<mapsto> blit h ?s v ?s ?n)\<rparr>"
  have t: "transfer DEVICE_TO_HOST ?s ?n ?g2 ?w2 = (cudaSuccess, ?x3)"
    using hr dr lv lh n r
    by (simp add: transfer_def cudaMemcpy_def at2_def)
  let ?x4 = "?x3\<lparr>gl_buffers := (gl_buffers ?x3)(v0 \<mapsto> (after_map w b)\<lparr>mapped := False\<rparr>)\<rparr>"
  have u: "unmap ?g2 ?x3 = Inr (g, ?x4)"
    using unmap_vbo_sb[of ?g2 v0 "snd (m_vbo g)" ?x3 "after_map w b"] mv v0n sb rb pg by simp
  let ?x' = "snd (cudaSetDevice (devID ?x4) ?x4)"
  from copy_eval[OF m t u] have c: "copy DEVICE_TO_HOST start count g w = Inr (g, ?x')" .
  have al: "allocated g ?x'"
    using a vbo sb r v0 p0 rb lh lv n h lb
    by (auto simp: allocated_def slot_ok_def host_data_def host_read_def at2_def v0_def
          length_blit split: if_splits)
  have "host_data g ?x' = Some (blit h ?s v ?s ?n)"
    using h by (auto simp: host_data_def host_read_def split: if_splits)
  moreover have "slot_data g ?x' (m_currentRead g) = Some v"
    using vbo r vv by (simp add: slot_data_def at2_def v0_def)
  moreover have "discards g ?x' (m_currentRead g) = discards g w (m_currentRead g)"
    using vbo r b' by (simp add: discards_def at2_def v0_def)
  ultimately show "\<exists>w'. copy DEVICE_TO_HOST start count g w = Inr (g, w') \<and> allocated g w' \<and>
           host_data g w'
             = Some (blit h (unat start) v (unat start) (copy_count g count)) \<and>
           slot_data g w' (m_currentRead g) = Some v \<and>
           discards g w' (m_currentRead g) = discards g w (m_currentRead g) \<and>
           discard w' = discard w"
    using c al by auto
qed


lemma copy_vbo_db:
  assumes a: "allocated g w" and vbo: "m_useVBO g" and db: "m_doubleBuffer g"
    and h: "host_data g w = Some h" and v: "slot_view g w (m_currentRead g) = Some v"
    and n: "unat start + copy_count g count \<le> unat (m_size g)"
  shows "\<exists>w'. copy HOST_TO_DEVICE start count g w = Inr (g, w') \<and> allocated g w' \<and>
           host_data g w' = Some h \<and>
           slot_data g w' (m_currentRead g)
             = Some (blit v (unat start) h (unat start) (copy_count g count)) \<and>
           discards g w' (m_currentRead g) = discards g w (m_currentRead g) \<and>
           discard w' = discard w"
    and "\<exists>w'. copy DEVICE_TO_HOST start count g w = Inr (g, w') \<and> allocated g w' \<and>
           host_data g w'
             = Some (blit h (unat start) v (unat start) (copy_count g count)) \<and>
           slot_data g w' (m_currentRead g) = Some v \<and>
           discards g w' (m_currentRead g) = discards g w (m_currentRead g) \<and>
           discard w' = discard w"
proof -
  let ?s = "unat start" and ?n = "copy_count g count" and ?r = "m_currentRead g"
  from a db have r: "?r = 0 \<or> ?r = 1" by (auto simp: allocated_def less_2_cases_iff)
  from a db vbo have ne: "at2 (m_vbo g) 1 \<noteq> at2 (m_vbo g) 0" by (simp add: allocated_def)
  from a have "slot_ok g w 0" by (simp add: allocated_def)
  then obtain b0 where v0: "at2 (m_vbo g) 0 \<noteq> 0" and p0: "at2 (m_dptr g) 0 = DevNull"
    and b0: "gl_buffers w (at2 (m_vbo g) 0) = Some b0" and rb0: "registered b0"
    and mb0: "\<not> mapped b0" and lb0: "length (gl_data b0) = unat (m_size g)"
    using vbo by (rule slot_ok_vbo)
  from a db have "slot_ok g w 1" by (simp add: allocated_def)
  then obtain b1 where v1: "at2 (m_vbo g) 1 \<noteq> 0" and p1: "at2 (m_dptr g) 1 = DevNull"
    and b1: "gl_buffers w (at2 (m_vbo g) 1) = Some b1" and rb1: "registered b1"
    and mb1: "\<not> mapped b1" and lb1: "length (gl_data b1) = unat (m_size g)"
    using vbo by (rule slot_ok_vbo)
  from allocated_host[OF a h] have lh: "length h = unat (m_size g)" .
  define v0 where "v0 = fst (m_vbo g)"
  define v1 where "v1 = snd (m_vbo g)"
  have mv: "m_vbo g = (v0, v1)" by (simp add: v0_def v1_def)
  from v0 v1 ne have vn: "v0 \<noteq> 0" "v1 \<noteq> 0" "v1 \<noteq> v0" "v0 \<noteq> v1"
    by (auto simp: at2_def v0_def v1_def)
  from b0 b1 have bb: "gl_buffers w v0 = Some b0" "gl_buffers w v1 = Some b1"
    by (simp_all add: at2_def v0_def v1_def)
  from p0 p1 have pg: "(DevNull, DevNull) = m_dptr g"
    by (simp add: at2_def prod_eq_iff)
  define br where "br = (if ?r = 0 then b0 else b1)"
  define vr where "vr = (if ?r = 0 then v0 else v1)"
  have bvr: "gl_buffers w (at2 (m_vbo g) ?r) = Some br"
    using r b0 b1 by (auto simp: br_def)
  from slot_view_vbo[OF vbo bvr] v have vv: "v = gl_data (after_map w br)" by simp
  have lv: "length v = unat (m_size g)" using vv lb0 lb1 by (simp add: br_def)
  let ?w1 = "snd (cudaSetDevice (renderDevID w) w)"
  let ?g2 = "g\<lparr>m_dptr := (VboBlock v0, VboBlock v1)\<rparr>"
  let ?w2 = "?w1\<lparr>gl_buffers := (gl_buffers ?w1)(v0 \<mapsto> after_map w b0, v1 \<mapsto> after_map w b1)\<rparr>"
  have m: "map_GpuArray g ?w1 = Inr (?g2, ?w2)"
    using map_vbo_db[OF mv vn(1,2,3) db, of ?w1 b0 b1] bb rb0 rb1 mb0 mb1 by simp
  have hr: "host_read (m_hptr g) ?w2 = Some h"
    using h by (auto simp: host_data_def host_read_def split: if_splits)
  have dr: "dev_read (at2 (VboBlock v0, VboBlock v1) ?r) ?w2 = Some v"
    using r vn by (auto simp: dev_read_def vv br_def at2_def)
  have ar: "at2 (VboBlock v0, VboBlock v1) ?r = VboBlock vr"
    using r by (auto simp: at2_def vr_def)
  have g2r: "gl_buffers ?w2 vr = Some (after_map w br)"
    using r vn by (auto simp: vr_def br_def)
  \<comment> \<open>host to device\<close>
  let ?b3 = "(after_map w br)\<lparr>gl_data := blit v ?s h ?s ?n\<rparr>"
  let ?w3 = "?w2\<lparr>gl_buffers := (gl_buffers ?w2)(vr \<mapsto> ?b3)\<rparr>"
  have t: "transfer HOST_TO_DEVICE ?s ?n ?g2 ?w2 = (cudaSuccess, ?w3)"
    using hr dr lv lh n g2r
    by (simp add: transfer_def cudaMemcpy_def dev_write_def ar)
  let ?c0 = "if ?r = 0 then ?b3 else after_map w b0"
  let ?c1 = "if ?r = 0 then after_map w b1 else ?b3"
  have g3: "gl_buffers ?w3 v0 = Some ?c0" "gl_buffers ?w3 v1 = Some ?c1"
    using r vn by (auto simp: vr_def br_def)
  let ?w4 = "?w3\<lparr>gl_buffers := (gl_buffers ?w3)(v0 \<mapsto> ?c0\<lparr>mapped := False\<rparr>,
                                                  v1 \<mapsto> ?c1\<lparr>mapped := False\<rparr>)\<rparr>"
  have u: "unmap ?g2 ?w3 = Inr (g, ?w4)"
    using unmap_vbo_db[of ?g2 v0 v1 ?w3 ?c0 ?c1, OF _ vn(1,2,3) _ g3(1) _ _ g3(2)]
      mv db rb0 rb1 pg r
    by (auto simp: br_def)
  let ?w' = "snd (cudaSetDevice (devID ?w4) ?w4)"
  from copy_eval[OF m t u] have c: "copy HOST_TO_DEVICE start count g w = Inr (g, ?w')" .
  have al: "allocated g ?w'"
    using a vbo db r vn p0 p1 rb0 rb1 lb0 lb1 lh lv n h
    by (auto simp: allocated_def slot_ok_def host_data_def host_read_def at2_def v0_def
          v1_def vr_def br_def length_blit split: if_splits)
  have "host_data g ?w' = Some h"
    using h by (auto simp: host_data_def host_read_def split: if_splits)
  moreover have "slot_data g ?w' ?r = Some (blit v ?s h ?s ?n)"
    using vbo r vn by (auto simp: slot_data_def at2_def v0_def v1_def vr_def)
  moreover have "discards g ?w' ?r = discards g w ?r"
    using vbo r bb vn by (auto simp: discards_def at2_def v0_def v1_def vr_def br_def)
  ultimately show "\<exists>w'. copy HOST_TO_DEVICE start count g w = Inr (g, w') \<and> allocated g w' \<and>
           host_data g w' = Some h \<and>
           slot_data g w' (m_currentRead g)
             = Some (blit v (unat start) h (unat start) (copy_count g count)) \<and>
           discards g w' (m_currentRead g) = discards g w (m_currentRead g) \<and>
           discard w' = discard w"
    using c al by auto
  \<comment> \<open>device to host\<close>
  let ?x3 = "?w2\<lparr>host_heap := (host_heap ?w2)(m_hptr g \<mapsto> blit h ?s v ?s ?n)\<rparr>"
  have t: "transfer DEVICE_TO_HOST ?s ?n ?g2 ?w2 = (cudaSuccess, ?x3)"
    using hr dr lv lh n g2r
    by (simp add: transfer_def cudaMemcpy_def)
  let ?x4 = "?x3\<lparr>gl_buffers := (gl_buffers ?x3)(v0 \<mapsto> (after_map w b0)\<lparr>mapped := False\<rparr>,
                                                  v1 \<mapsto> (after_map w b1)\<lparr>mapped := False\<rparr>)\<rparr>"
  have u: "unmap ?g2 ?x3 = Inr (g, ?x4)"
    using unmap_vbo_db[of ?g2 v0 v1 ?x3 "after_map w b0" "after_map w b1"] mv vn db rb0 rb1 pg
    by simp
  let ?x' = "snd (cudaSetDevice (devID ?x4) ?x4)"
  from copy_eval[OF m t u] have c: "copy DEVICE_TO_HOST start count g w = Inr (g, ?x')" .
  have al: "allocated g ?x'"
    using a vbo db r vn p0 p1 rb0 rb1 lb0 lb1 lh lv n h
    by (auto simp: allocated_def slot_ok_def host_data_def host_read_def at2_def v0_def
          v1_def length_blit split: if_splits)
  have "host_data g ?x' = Some (blit h ?s v ?s ?n)"
    using h by (auto simp: host_data_def host_read_def split: if_splits)
  moreover have "slot_data g ?x' ?r = Some v"
    using vbo r vn vv by (auto simp: slot_data_def at2_def v0_def v1_def br_def)
  moreover have "discards g ?x' ?r = discards g w ?r"
    using vbo r bb vn by (auto simp: discards_def at2_def v0_def v1_def)
  ultimately show "\<exists>w'. copy DEVICE_TO_HOST start count g w = Inr (g, w') \<and> allocated g w' \<and>
           host_data g w'
             = Some (blit h (unat start) v (unat start) (copy_count g count)) \<and>
           slot_data g w' (m_currentRead g) = Some v \<and>
           discards g w' (m_currentRead g) = discards g w (m_currentRead g) \<and>
           discard w' = discard w"
    using c al by auto
qed

lemma slot_view_raw: "\<not> m_useVBO g \<Longrightarrow> slot_view g w i = slot_data g w i"
  by (cases "slot_data g w i") (simp_all add: slot_view_def discards_def)

lemma copy_allocated:
  assumes a: "allocated g w"
    and h: "host_data g w = Some h" and v: "slot_view g w (m_currentRead g) = Some v"
    and n: "unat start + copy_count g count \<le> unat (m_size g)"
  shows "\<exists>w'. copy HOST_TO_DEVICE start count g w = Inr (g, w') \<and> allocated g w' \<and>
           host_data g w' = Some h \<and>
           slot_data g w' (m_currentRead g)
             = Some (blit v (unat start) h (unat start) (copy_count g count)) \<and>
           discards g w' (m_currentRead g) = discards g w (m_currentRead g) \<and>
           discard w' = discard w"
    and "\<exists>w'. copy DEVICE_TO_HOST start count g w = Inr (g, w') \<and> allocated g w' \<and>
           host_data g w'
             = Some (blit h (unat start) v (unat start) (copy_count g count)) \<and>
           slot_data g w' (m_currentRead g) = Some v \<and>
           discards g w' (m_currentRead g) = discards g w (m_currentRead g) \<and>
           discard w' = discard w"
proof -
  consider (raw) "\<not> m_useVBO g" | (sb) "m_useVBO g" "\<not> m_doubleBuffer g"
    | (db) "m_useVBO g" "m_doubleBuffer g" by blast
  then have "(\<exists>w'. copy HOST_TO_DEVICE start count g w = Inr (g, w') \<and> allocated g w' \<and>
           host_data g w' = Some h \<and>
           slot_data g w' (m_currentRead g)
             = Some (blit v (unat start) h (unat start) (copy_count g count)) \<and>
           discards g w' (m_currentRead g) = discards g w (m_currentRead g) \<and>
           discard w' = discard w) \<and>
        (\<exists>w'. copy DEVICE_TO_HOST start count g w = Inr (g, w') \<and> allocated g w' \<and>
           host_data g w'
             = Some (blit h (unat start) v (unat start) (copy_count g count)) \<and>
           slot_data g w' (m_currentRead g) = Some v \<and>
           discards g w' (m_currentRead g) = discards g w (m_currentRead g) \<and>
           discard w' = discard w)"
  proof cases
    case raw
    from v raw have d: "slot_data g w (m_currentRead g) = Some v" by (simp add: slot_view_raw)
    from copy_raw_h2d[OF a raw h d n] copy_raw_d2h[OF a raw h d n] raw show ?thesis
      by (auto simp: discards_def)
  next
    case sb
    from copy_vbo_sb[OF a sb h v n] show ?thesis by blast
  next
    case db
    from copy_vbo_db[OF a db h v n] show ?thesis by blast
  qed
  then show "\<exists>w'. copy HOST_TO_DEVICE start count g w = Inr (g, w') \<and> allocated g w' \<and>
           host_data g w' = Some h \<and>
           slot_data g w' (m_currentRead g)
             = Some (blit v (unat start) h (unat start) (copy_count g count)) \<and>
           discards g w' (m_currentRead g) = discards g w (m_currentRead g) \<and>
           discard w' = discard w"
    and "\<exists>w'. copy DEVICE_TO_HOST start count g w = Inr (g, w') \<and> allocated g w' \<and>
           host_data g w'
             = Some (blit h (unat start) v (unat start) (copy_count g count)) \<and>
           slot_data g w' (m_currentRead g) = Some v \<and>
           discards g w' (m_currentRead g) = discards g w (m_currentRead g) \<and>
           discard w' = discard w"
    by blast+
qed

lemma allocated_view:
  assumes "allocated g w"
  shows "\<exists>h v. host_data g w = Some h \<and> slot_view g w (m_currentRead g) = Some v \<and>
           length h = unat (m_size g) \<and> length v = unat (m_size g)"
proof -
  from assms obtain h where h: "host_data g w = Some h" "length h = unat (m_size g)"
    by (auto simp: allocated_def split: option.splits)
  from allocated_read_slot[OF assms]
  have "\<exists>v. slot_view g w (m_currentRead g) = Some v \<and> length v = unat (m_size g)"
    by (cases "discards g w (m_currentRead g)")
       (auto simp: slot_ok_def slot_view_def slot_data_def
             split: if_splits option.splits devptr.splits)
  with h show ?thesis by blast
qed

lemma copy_count_small:
  "unat (m_size g) < 2 ^ 32 \<Longrightarrow> copy_count g 0 = unat (m_size g)"
  by (simp add: copy_count_def unsigned_ucast_eq take_bit_nat_eq_self)

lemma copy_count_nonzero: "count \<noteq> 0 \<Longrightarrow> copy_count g count = unat count"
  by (simp add: copy_count_def)

lemma copy_count_le: "copy_count g 0 \<le> unat (m_size g)"
  by (simp add: copy_count_def unsigned_ucast_eq take_bit_nat_less_eq_self)

lemma moved_all:
  assumes "moved src dst dst' 0 (length dst)" and "length src = length dst"
  shows "dst' = src"
  using assms by (auto simp: moved_def intro: nth_equalityI)

lemma in_set_take_drop:
  assumes "s \<le> i" and "i < s + n" and "s + n \<le> length h"
  shows "h ! i \<in> set (take n (drop s h))"
proof -
  have "take n (drop s h) ! (i - s) = h ! i" using assms by simp
  moreover have "i - s < length (take n (drop s h))" using assms by simp
  ultimately show ?thesis by (metis nth_mem)
qed

subsection \<open>What \<^verbatim>\<open>alloc\<close> establishes\<close>

lemma createVbo_result:
  assumes "createVbo n ea w = Inr (v, w')"
  shows "v = next_handle w + 1" and "next_handle w' = v"
    and "host_heap w' = host_heap w" and "dev_heap w' = dev_heap w"
    and "\<exists>b. gl_buffers w' v = Some b \<and> registered b \<and> \<not> mapped b \<and> length (gl_data b) = n"
    and "\<And>u. u \<noteq> v \<Longrightarrow> gl_buffers w' u = gl_buffers w u"
  using assms
  by (cases ea;
      auto simp: createVbo_def glGenBuffers_def glBindBuffer_def glBufferData_def
        bound_buffer_def cudaGLRegisterBufferObject_def cudaGLSetBufferObjectMapFlags_def
        then_do_def cutilSafeCall_def fresh_block_def Let_def
      split: option.splits if_splits)+

lemma alloc_allocated:
  assumes "alloc sz vbo db ea (GpuArray u d) w = Inr (g, w')"
  shows "allocated g w'"
proof -
  let ?p = "next_handle w + 1"
  from assms obtain g3 w3 where
    r: "(if vbo then allocVbo ea g3 w3 else allocDevice g3 w3) = Inr (g, w')" and
    g3: "m_size g3 = sz" "m_useVBO g3 = vbo" "m_doubleBuffer g3 = db" "m_vbo g3 = (0, 0)"
      "m_dptr g3 = (DevNull, DevNull)" "m_hptr g3 = ?p" "m_currentRead g3 = 0" and
    w3: "host_heap w3 ?p = Some (fresh_block w (unat sz))" "next_handle w3 = ?p"
    by (auto simp: alloc_Inr_iff allocHost_Inr_iff GpuArray_def split: if_splits)
  have lf: "length (fresh_block w (unat sz)) = unat sz" by (simp add: fresh_block_def)
  show ?thesis
  proof (cases vbo)
    case False
    with r have "allocDevice g3 w3 = Inr (g, w')" by simp
    then show ?thesis
      using False g3 w3 lf
      by (cases db)
         (auto simp: allocDevice_def cudaMalloc_def then_do_def cutilSafeCall_def Let_def
            allocated_def slot_ok_def host_data_def host_read_def at2_def set2_def
            fresh_block_def
          split: if_splits)
  next
    case True
    with r have av: "allocVbo ea g3 w3 = Inr (g, w')" by simp
    then obtain v0 w0 where c0: "createVbo (unat sz) ea w3 = Inr (v0, w0)"
      using g3 by (auto simp: allocVbo_def then_do_Inr_iff)
    note f0 = createVbo_result[OF c0]
    show ?thesis
    proof (cases db)
      case False
      with av c0 g3 have g: "g = g3\<lparr>m_vbo := (v0, 0)\<rparr>" and w': "w' = w0"
        by (auto simp: allocVbo_def then_do_def Let_def set2_def)
      from f0 show ?thesis
        using True False g3 w3 lf
        by (auto simp: g w' allocated_def slot_ok_def host_data_def host_read_def at2_def)
    next
      case db: True
      with av c0 g3 obtain v1 w1 where c1: "createVbo (unat sz) ea w0 = Inr (v1, w1)"
        and g: "g = g3\<lparr>m_vbo := (v0, v1)\<rparr>" and w': "w' = w1"
        by (auto simp: allocVbo_def then_do_Inr_iff Let_def set2_def)
      note f1 = createVbo_result[OF c1]
      from f0(1,2) f1(1) have ne: "v1 \<noteq> v0" "v0 \<noteq> v1" by simp_all
      from f0(5) f1(6)[OF ne(2)] have b0: "\<exists>b. gl_buffers w1 v0 = Some b \<and> registered b \<and>
          \<not> mapped b \<and> length (gl_data b) = unat sz" by simp
      have hh: "host_heap w1 ?p = Some (fresh_block w (unat sz))"
        using f0(3) f1(3) w3 by simp
      from b0 f1(5) f0(1) f1(1) ne hh show ?thesis
        using True db g3 w3 lf
        by (auto simp: g w' allocated_def slot_ok_def host_data_def host_read_def at2_def)
    qed
  qed
qed

lemma slot_ok_swap: "slot_ok (swap g) w i = slot_ok g w i"
  by (simp add: slot_ok_def swap_def cong: option.case_cong devptr.case_cong)

lemma swap_fields:
  "m_size (swap g) = m_size g" "m_useVBO (swap g) = m_useVBO g"
  "m_doubleBuffer (swap g) = m_doubleBuffer g" "m_vbo (swap g) = m_vbo g"
  "m_currentRead (swap g) = m_currentWrite g"
  by (simp_all add: swap_def)

lemma allocated_swap:
  assumes "allocated g w" and "role_inv g"
  shows "allocated (swap g) w"
proof -
  have h: "host_data (swap g) w = host_data g w" by (simp add: host_data_def swap_def)
  have "m_doubleBuffer g \<Longrightarrow> m_currentWrite g < 2"
    using assms(2) by (auto simp: role_inv_def doubleton_eq_iff)
  moreover have "\<not> m_doubleBuffer g \<Longrightarrow> m_currentWrite g = 0"
    using assms(2) by (simp add: role_inv_def)
  ultimately show ?thesis
    using assms(1) unfolding allocated_def h slot_ok_swap swap_fields by auto
qed

subsection \<open>What a transfer moves\<close>

lemma copy_count_zero: "copy_count g 0 = unat (m_size g) mod 2 ^ 32"
  by (simp add: copy_count_def unsigned_ucast_eq take_bit_eq_mod)

lemma length_big_block: "length (big_block x) = 2 ^ 32"
  by (simp add: big_block_def)

lemma slot_view_data:
  "slot_data g w i = Some d \<Longrightarrow>
     slot_view g w i = Some (if discards g w i then map (discard w) d else d)"
  by (simp add: slot_view_def)

lemma take_drop_blit:
  assumes "s + n \<le> length dst" and "s + n \<le> length src"
  shows "take n (drop s (blit dst s src s n)) = take n (drop s src)"
  using assms by (auto simp: blit_def min_def)

lemma allocated_slot:
  assumes "allocated g w"
  shows "\<exists>h d. host_data g w = Some h \<and> slot_data g w (m_currentRead g) = Some d \<and>
           slot_view g w (m_currentRead g)
             = Some (if discards g w (m_currentRead g) then map (discard w) d else d) \<and>
           length h = unat (m_size g) \<and> length d = unat (m_size g)"
proof -
  from allocated_view[OF assms] obtain h v where
    h: "host_data g w = Some h" "length h = unat (m_size g)" and
    v: "slot_view g w (m_currentRead g) = Some v" "length v = unat (m_size g)"
    by blast
  from v(1) obtain d where d: "slot_data g w (m_currentRead g) = Some d"
    by (auto simp: slot_view_def)
  from slot_view_data[OF d] v have "length d = unat (m_size g)"
    by (auto split: if_splits)
  with h d slot_view_data[OF d] show ?thesis by blast
qed

lemma moved_length: "moved src dst dst' s n \<Longrightarrow> length dst' = length dst"
  by (simp add: moved_def)

lemma moved_nth:
  "moved src dst dst' s n \<Longrightarrow> i < length dst \<Longrightarrow>
     dst' ! i = (if s \<le> i \<and> i < s + n then src ! i else dst ! i)"
  by (simp add: moved_def)

lemma list4_eqI:
  assumes "length xs = 4" and "xs ! 0 = a" and "xs ! 1 = b" and "xs ! 2 = c" and "xs ! 3 = d"
  shows "xs = [a, b, c, d]"
proof (rule nth_equalityI)
  show "length xs = length [a, b, c, d]" using assms(1) by simp
next
  fix i assume "i < length xs"
  then have "i = 0 \<or> i = 1 \<or> i = 2 \<or> i = 3" using assms(1) by arith
  then show "xs ! i = [a, b, c, d] ! i" using assms(2-5) by auto
qed

lemma moved_list4:
  assumes "moved src [a, b, c, d] dst' s n"
  shows "dst' = [if s \<le> 0 \<and> 0 < s + n then src ! 0 else a,
                 if s \<le> 1 \<and> 1 < s + n then src ! 1 else b,
                 if s \<le> 2 \<and> 2 < s + n then src ! 2 else c,
                 if s \<le> 3 \<and> 3 < s + n then src ! 3 else d]"
  using moved_length[OF assms] moved_nth[OF assms, of 0] moved_nth[OF assms, of 1]
    moved_nth[OF assms, of 2] moved_nth[OF assms, of 3]
  by (intro list4_eqI) auto

lemma allocated_big: "allocated big_array big_world"
  by (simp add: allocated_def host_data_def host_read_def slot_ok_def at2_def big_array_def
        big_world_def length_big_block)

lemma big_block_differ: "big_block 0 \<noteq> big_block 1"
proof
  assume "big_block 0 = big_block 1"
  then have "big_block 0 ! 0 = big_block 1 ! 0" by simp
  then show False by (simp add: big_block_def)
qed

subsection \<open>Allocated buffers along a run\<close>

lemma cudaGLMapBufferObject_host:
  "cudaGLMapBufferObject v w = (e, p, w') \<Longrightarrow> host_heap w' = host_heap w"
  by (auto simp: cudaGLMapBufferObject_def split: option.splits if_splits)

lemma map_GpuArray_host:
  assumes "map_GpuArray g w = Inr (g', w')"
  shows "host_heap w' = host_heap w"
proof -
  from assms obtain g0 w0 where
    a: "(if at2 (m_vbo g) 0 \<noteq> 0
        then (case cudaGLMapBufferObject (at2 (m_vbo g) 0) w of
                (err0, p0, w0) \<Rightarrow>
                  cutilSafeCall err0 (g\<lparr>m_dptr := set2 (m_dptr g) 0 p0\<rparr>, w0))
        else Inr (g, w)) = Inr (g0, w0)" and
    b: "(if m_doubleBuffer g0 \<and> at2 (m_vbo g0) 1 \<noteq> 0
          then (case cudaGLMapBufferObject (at2 (m_vbo g0) 1) w0 of
                  (err1, p1, w1) \<Rightarrow>
                    cutilSafeCall err1 (g0\<lparr>m_dptr := set2 (m_dptr g0) 1 p1\<rparr>, w1))
          else Inr (g0, w0)) = Inr (g', w')"
    by (auto simp: map_GpuArray_def then_do_Inr_iff)
  from a have "host_heap w0 = host_heap w"
    by (auto simp: cutilSafeCall_Inr_iff dest: cudaGLMapBufferObject_host
             split: if_splits prod.splits)
  moreover from b have "host_heap w' = host_heap w0"
    by (auto simp: cutilSafeCall_Inr_iff dest: cudaGLMapBufferObject_host
             split: if_splits prod.splits)
  ultimately show ?thesis by simp
qed

lemma transfer_success_host:
  assumes "transfer dir s n g w = (cudaSuccess, w')"
  shows "\<exists>h. host_read (m_hptr g) w = Some h \<and> s + n \<le> length h"
  using assms
  by (cases dir)
     (auto simp: transfer_def cudaMemcpy_def split: option.splits if_splits)

lemma copy_Inr_range:
  assumes "allocated g w" and "copy dir start count g w = Inr (g', w')"
  shows "unat start + copy_count g count \<le> unat (m_size g)"
proof -
  from assms(2) obtain g2 w2 w3 where
    m: "map_GpuArray g (snd (cudaSetDevice (renderDevID w) w)) = Inr (g2, w2)" and
    t: "transfer dir (unat start) (copy_count g count) g2 w2 = (cudaSuccess, w3)"
    unfolding copy_Inr_iff copy_count_def by blast
  from transfer_success_host[OF t] obtain h where
    h: "host_read (m_hptr g2) w2 = Some h" "unat start + copy_count g count \<le> length h"
    by blast
  have "m_hptr g2 = m_hptr g" using map_GpuArray_shape[OF m] by (simp add: same_but_dptr_def)
  moreover have "host_heap w2 = host_heap w" using map_GpuArray_host[OF m] by simp
  ultimately have "host_data g w = Some h" using h(1)
    by (auto simp: host_data_def host_read_def split: if_splits)
  from allocated_host[OF assms(1) this] h(2) show ?thesis by simp
qed

lemma copy_keeps_allocated:
  assumes "allocated g w" and "copy dir start count g w = Inr (g', w')"
  shows "g' = g \<and> allocated g w'"
proof -
  from allocated_view[OF assms(1)] obtain h v where
    h: "host_data g w = Some h" and v: "slot_view g w (m_currentRead g) = Some v"
    by blast
  note n = copy_Inr_range[OF assms]
  show ?thesis
  proof (cases dir)
    case HOST_TO_DEVICE
    with copy_allocated(1)[OF assms(1) h v n] assms(2) show ?thesis by auto
  next
    case DEVICE_TO_HOST
    with copy_allocated(2)[OF assms(1) h v n] assms(2) show ?thesis by auto
  qed
qed

lemma run_keeps_allocated:
  assumes "\<forall>x \<in> set ops. keeps_allocation x"
    and "allocated g w" and "role_inv g"
    and "run_ops ops (g, w) = Inr (g', w')"
  shows "allocated g' w' \<and> role_inv g'"
  using assms
proof (induction ops arbitrary: g w)
  case Nil
  then show ?case by simp
next
  case (Cons x xs)
  from Cons.prems(4) obtain g1 w1 where
    x: "apply_op x (g, w) = Inr (g1, w1)" and r: "run_ops xs (g1, w1) = Inr (g', w')"
    by (auto simp: then_do_Inr_iff)
  have "allocated g1 w1 \<and> role_inv g1"
  proof (cases x)
    case Swap
    with x Cons.prems(2,3) show ?thesis by (auto simp: allocated_swap role_inv_swap)
  next
    case (Copy dir start count)
    with x copy_keeps_allocated[OF Cons.prems(2), of dir start count g1 w1] Cons.prems(3)
    show ?thesis by auto
  next
    case (Memset val start count)
    with x Cons.prems(2,3) show ?thesis by (auto simp: memset_def)
  next
    case (Alloc a b c d)
    with Cons.prems(1) show ?thesis by simp
  next
    case Free
    with Cons.prems(1) show ?thesis by simp
  next
    case Map
    with Cons.prems(1) show ?thesis by simp
  next
    case Unmap
    with Cons.prems(1) show ?thesis by simp
  qed
  with Cons.IH[of g1 w1] Cons.prems(1) r show ?case by simp
qed

lemma single_alloc_allocated:
  assumes "alloc sz vbo db ea (GpuArray u d) w0 = Inr s0"
    and "\<forall>x \<in> set ops. keeps_allocation x"
    and "run_ops ops s0 = Inr (g, w)"
  shows "allocated g w"
proof -
  obtain g0 w1 where s0: "s0 = (g0, w1)" by (cases s0)
  from alloc_roles[OF assms(1)[unfolded s0]] have r: "role_inv g0"
    by (simp add: role_inv_def GpuArray_def doubleton_eq_iff)
  from alloc_allocated[OF assms(1)[unfolded s0]] have a: "allocated g0 w1" .
  from run_keeps_allocated[OF assms(2) a r assms(3)[unfolded s0]] show ?thesis by simp
qed

subsection \<open>What \<^verbatim>\<open>free\<close> releases\<close>

text \<open>
  \<^verbatim>\<open>free()\<close> releases the host array and the buffer objects and clears their
  members, so that a second \<^verbatim>\<open>free()\<close> does nothing. It never touches a block of
  \<^verbatim>\<open>cudaMalloc\<close>: the device array of an instance allocated without a buffer object
  outlives it.
\<close>

lemma freeHost_device:
  assumes "freeHost g w = Inr (g', w')"
  shows "dev_heap w' = dev_heap w \<and> m_dptr g' = m_dptr g \<and> m_vbo g' = m_vbo g \<and>
         m_hptr g' = 0"
  using assms
  by (auto simp: freeHost_def then_do_Inr_iff delete_array_def split: if_splits option.splits)

lemma cudaGLUnregisterBufferObject_dev_heap:
  "cudaGLUnregisterBufferObject v w = (e, w') \<Longrightarrow> dev_heap w' = dev_heap w"
  by (auto simp: cudaGLUnregisterBufferObject_def split: option.splits if_splits)

lemma glDeleteBuffers_dev_heap [simp]: "dev_heap (glDeleteBuffers v w) = dev_heap w"
  by (simp add: glDeleteBuffers_def)

lemma freeVbo_device:
  assumes "freeVbo g w = Inr (g', w')"
  shows "dev_heap w' = dev_heap w \<and> m_dptr g' = m_dptr g \<and> m_hptr g' = m_hptr g \<and>
         m_vbo g' = (0, 0)"
proof -
  from assms obtain g0 w0 where
    s0: "(if at2 (m_vbo g) 0 \<noteq> 0
          then (case cudaGLUnregisterBufferObject (at2 (m_vbo g) 0) w of
                  (err0, w0) \<Rightarrow>
                    then_do (cutilSafeCall err0 w0)
                      (\<lambda>w0. Inr (g\<lparr>m_vbo := set2 (m_vbo g) 0 0\<rparr>,
                                 glDeleteBuffers (at2 (m_vbo g) 0) w0)))
          else Inr (g, w)) = Inr (g0, w0)" and
    s1: "(if at2 (m_vbo g0) 1 \<noteq> 0
          then (case cudaGLUnregisterBufferObject (at2 (m_vbo g0) 1) w0 of
                  (err1, w1) \<Rightarrow>
                    then_do (cutilSafeCall err1 w1)
                      (\<lambda>w1. Inr (g0\<lparr>m_vbo := set2 (m_vbo g0) 1 0\<rparr>,
                                 glDeleteBuffers (at2 (m_vbo g0) 1) w1)))
          else Inr (g0, w0)) = Inr (g', w')"
    unfolding freeVbo_def then_do_Inr_iff by auto
  have a: "dev_heap w0 = dev_heap w \<and> m_dptr g0 = m_dptr g \<and> m_hptr g0 = m_hptr g \<and>
           fst (m_vbo g0) = 0 \<and> snd (m_vbo g0) = snd (m_vbo g)"
  proof (cases "at2 (m_vbo g) 0 \<noteq> 0")
    case False
    with s0 show ?thesis by (simp add: at2_def)
  next
    case True
    with s0 show ?thesis
      by (auto simp: then_do_Inr_iff cutilSafeCall_Inr_iff set2_def
            dest: cudaGLUnregisterBufferObject_dev_heap split: prod.splits)
  qed
  have b: "dev_heap w' = dev_heap w0 \<and> m_dptr g' = m_dptr g0 \<and> m_hptr g' = m_hptr g0 \<and>
           fst (m_vbo g') = fst (m_vbo g0) \<and> snd (m_vbo g') = 0"
  proof (cases "at2 (m_vbo g0) 1 \<noteq> 0")
    case False
    with s1 show ?thesis by (simp add: at2_def)
  next
    case True
    with s1 show ?thesis
      by (auto simp: then_do_Inr_iff cutilSafeCall_Inr_iff set2_def
            dest: cudaGLUnregisterBufferObject_dev_heap split: prod.splits)
  qed
  from a b show ?thesis by (simp add: prod_eq_iff)
qed

lemma free_keeps_device_memory:
  assumes "free g w = Inr (g', w')"
  shows "dev_heap w' = dev_heap w" and "m_dptr g' = m_dptr g"
    and "m_hptr g' = 0" and "m_vbo g' = (0, 0)"
proof -
  from assms obtain g1 w1
    where a: "freeHost g w = Inr (g1, w1)" and b: "freeVbo g1 w1 = Inr (g', w')"
    by (auto simp: free_Inr_iff)
  from freeHost_device[OF a] freeVbo_device[OF b]
  show "dev_heap w' = dev_heap w" and "m_dptr g' = m_dptr g"
    and "m_hptr g' = 0" and "m_vbo g' = (0, 0)"
    by simp_all
qed

lemma free_twice:
  assumes "free g w = Inr (g', w')"
  shows "free g' w' = Inr (g', w')"
  using free_keeps_device_memory(3,4)[OF assms]
  by (simp add: free_def freeHost_def freeVbo_def then_do_def array_to_bool_def at2_def)

lemma free_leaks_device_array:
  assumes "alloc sz False db ea (GpuArray u d) w = Inr (g, w1)"
    and "free g w1 = Inr (g', w2)"
  shows "\<exists>b blk. getDevicePtr g' = DevBlock b \<and> dev_heap w2 b = Some blk"
proof -
  from alloc_allocated[OF assms(1)] have "slot_ok g w1 (m_currentRead g)"
    by (rule allocated_read_slot)
  moreover from alloc_roles[OF assms(1)] have "\<not> m_useVBO g" by simp
  ultimately obtain b blk where "at2 (m_dptr g) (m_currentRead g) = DevBlock b"
    and "dev_heap w1 b = Some blk"
    by (auto elim: slot_ok_raw)
  moreover from free_roles[OF assms(2)] have "m_currentRead g' = m_currentRead g"
    by (simp add: same_roles_def)
  ultimately show ?thesis
    using free_keeps_device_memory(1,2)[OF assms(2)] by (simp add: getDevicePtr_def)
qed

section \<open>Facts about the hand-off\<close>

lemmas io_defs =
  io_poll_def write_snapshot_def usleep_def IOSharedData_free_def publish_def

lemmas io_demo_defs =
  demo_snapshot_def demo_shared_def demo_config_def demo_io_def demo_call_def demo_drained_def


lemma write_snapshot_keeps [simp]:
  "shared (write_snapshot cfg s) = shared s"
  "slept_us (write_snapshot cfg s) = slept_us s"
  by (simp_all add: write_snapshot_def Let_def)



lemma write_snapshot_length [simp]:
  "length (disk (write_snapshot cfg s)) = length (disk s) + 1"
  by (simp add: write_snapshot_def Let_def)

text \<open>\<^verbatim>\<open>free()\<close> as the specification has it releases the arrays and keeps the flag.\<close>

lemma IOSharedData_free_slot:
  "writingFinished (IOSharedData_free sh) = writingFinished sh"
  "Pos (IOSharedData_free sh) = None" "Vel (IOSharedData_free sh) = None"
  "IDs (IOSharedData_free sh) = None"
  by (simp_all add: IOSharedData_free_def)

lemma handoff_inv_init: "handoff_inv (init sh)"
  by (simp add: handoff_inv_def init_def between_drains_def)

lemma consumer_step_inv:
  assumes "handoff_inv s"
  shows "handoff_inv (consumer_step fr cfg s)"
  using assms
  by (cases "cpc s")
     (auto simp: handoff_inv_def consumer_step_def between_drains_def usleep_def)

lemma step_inv:
  assumes "handoff_inv s"
  shows "handoff_inv (step fr cfg e s)"
proof (cases "aborted s")
  case True
  with assms show ?thesis by (simp add: step_def)
next
  case False
  show ?thesis
  proof (cases e)
    case (Publish f)
    with assms False show ?thesis by (auto simp: step_def handoff_inv_def)
  next
    case IterateReturns
    with assms False show ?thesis by (auto simp: step_def handoff_inv_def)
  next
    case IterateThrows
    with assms False show ?thesis by (auto simp: step_def handoff_inv_def)
  next
    case SetFinished
    with assms False show ?thesis by (auto simp: step_def handoff_inv_def)
  next
    case ConsumerStep
    with assms False consumer_step_inv[OF assms] show ?thesis by (simp add: step_def)
  qed
qed

lemma run_inv: "handoff_inv s \<Longrightarrow> handoff_inv (run fr cfg evs s)"
  by (induction evs arbitrary: s) (simp_all add: step_inv)

lemma step_after_signal:
  assumes "ppc s = PFinished"
  shows "ppc (step fr cfg e s) = PFinished \<and> published (step fr cfg e s) = published s \<and>
         signals (step fr cfg e s) = signals s \<and>
         simulationFinished (step fr cfg e s) = simulationFinished s"
proof (cases "aborted s")
  case True
  with assms show ?thesis by (simp add: step_def)
next
  case False
  with assms show ?thesis
    by (cases e; cases "cpc s") (simp_all add: step_def consumer_step_def)
qed

lemma run_after_signal:
  "ppc s = PFinished \<Longrightarrow>
     ppc (run fr cfg evs s) = PFinished \<and> published (run fr cfg evs s) = published s \<and>
     signals (run fr cfg evs s) = signals s \<and>
     simulationFinished (run fr cfg evs s) = simulationFinished s"
proof (induction evs arbitrary: s)
  case Nil
  then show ?case by simp
next
  case (Cons e es)
  from step_after_signal[OF Cons.prems, of fr cfg e] Cons.IH[of "step fr cfg e s"]
  show ?case by simp
qed

lemma step_after_exit:
  assumes "cpc s = CExited"
  shows "cpc (step fr cfg e s) = CExited \<and> disk (io (step fr cfg e s)) = disk (io s)"
  using assms by (cases e) (simp_all add: step_def consumer_step_def)

lemma run_after_exit:
  "cpc s = CExited \<Longrightarrow>
     cpc (run fr cfg evs s) = CExited \<and> disk (io (run fr cfg evs s)) = disk (io s)"
proof (induction evs arbitrary: s)
  case Nil
  then show ?case by simp
next
  case (Cons e es)
  from step_after_exit[OF Cons.prems, of fr cfg e] Cons.IH[of "step fr cfg e s"]
  show ?case by simp
qed

text \<open>After \<^verbatim>\<open>::abort()\<close> or a failed \<^verbatim>\<open>assert\<close> nothing happens any more.\<close>

lemma run_aborted: "aborted s \<Longrightarrow> run fr cfg evs s = s"
  by (induction evs) (simp_all add: step_def)

text \<open>
  The steps of the I/O thread from the test of the flag back to the test of the loop,
  with thread 0 silent and the \<^verbatim>\<open>assert\<close> passing, are one \<open>io_poll\<close>.
\<close>

lemma consumer_steps_io_poll:
  assumes "cpc s = CFlagTest" and "\<not> aborted s"
    and "\<not> writingFinished (shared (io s)) \<longrightarrow> \<not> writingFinished (fr (shared (io s)))"
  shows "io_poll fr cfg (io s)
         = Inr (io (run fr cfg (replicate (if writingFinished (shared (io s)) then 2 else 6)
                                  ConsumerStep) s))"
  using assms
  by (simp add: io_poll_def step_def consumer_step_def Let_def numeral_eq_Suc)

section \<open>The role indices of a \<^verbatim>\<open>GpuArray\<close>\<close>

text \<open>
  C2 (as the code has it). The constructor sets both indices to 0. When \<^verbatim>\<open>alloc\<close> is
  the first call on a constructed instance and is not called again, the invariant of the
  role indices holds after it and in every state that any sequence of \<^verbatim>\<open>swap\<close>,
  \<^verbatim>\<open>copy\<close>, \<^verbatim>\<open>map\<close>, \<^verbatim>\<open>unmap\<close>, \<^verbatim>\<open>memset\<close> and \<^verbatim>\<open>free\<close> passes
  through: without double buffering both indices are 0, with it they are 0 and 1 in some
  order.
\<close>

theorem role_indices_single_alloc:
  assumes "alloc sz vbo db ea (GpuArray u d) w = Inr s0"
    and "\<forall>x \<in> set ops. \<not> is_alloc x"
  shows "m_currentRead (GpuArray u d) = 0 \<and> m_currentWrite (GpuArray u d) = 0 \<and>
         (\<forall>t \<in> set (trace_ops ops s0). role_inv (fst t))"
proof -
  obtain g0 w0 where s0: "s0 = (g0, w0)" by (cases s0)
  from alloc_roles[OF assms(1)[unfolded s0]] have "role_inv g0"
    by (simp add: role_inv_def GpuArray_def doubleton_eq_iff)
  with trace_ops_role_inv[OF assms(2), of s0] s0 show ?thesis
    by (simp add: GpuArray_def)
qed

theorem role_indices_single_alloc_witness:
  "alloc 4 False True False (GpuArray False False) demo_world
     = Inr (demo_array, demo_array_world) \<and>
   list_all (\<lambda>x. \<not> is_alloc x) [Swap, Copy HOST_TO_DEVICE 0 0, Swap, Free] \<and>
   list_all (\<lambda>t. role_inv (fst t))
     (trace_ops [Swap, Copy HOST_TO_DEVICE 0 0, Swap, Free] (demo_array, demo_array_world))"
proof -
  have ops: "\<forall>x \<in> set [Swap, Copy HOST_TO_DEVICE 0 0, Swap, Free :: int op]. \<not> is_alloc x"
    by simp
  from role_indices_single_alloc[OF demo_alloc ops] demo_alloc show ?thesis
    by (simp add: list_all_iff)
qed

text \<open>
  C2 as stated fails: \<^verbatim>\<open>alloc\<close> never resets the indices. After \<^verbatim>\<open>alloc\<close>,
  \<^verbatim>\<open>swap\<close>, \<^verbatim>\<open>free\<close> and a second \<^verbatim>\<open>alloc\<close>, all double-buffered, both indices
  are 1.
\<close>

theorem realloc_breaks_role_indices:
  "map_option m_doubleBuffer
     (array_of (run_ops [Alloc 4 False True False, Swap, Free, Alloc 4 False True False]
        (GpuArray False False, demo_world))) = Some True \<and>
   map_option m_currentRead
     (array_of (run_ops [Alloc 4 False True False, Swap, Free, Alloc 4 False True False]
        (GpuArray False False, demo_world))) = Some 1 \<and>
   map_option m_currentWrite
     (array_of (run_ops [Alloc 4 False True False, Swap, Free, Alloc 4 False True False]
        (GpuArray False False, demo_world))) = Some 1 \<and>
   map_option role_inv
     (array_of (run_ops [Alloc 4 False True False, Swap, Free, Alloc 4 False True False]
        (GpuArray False False, demo_world))) = Some False"
  by (simp add: cuda_defs ga_defs demo_world_def Let_def upt_rec obs_defs role_inv_def)

section \<open>Release\<close>

text \<open>
  C1 fails on the code. \<^verbatim>\<open>free()\<close> branches on the array \<^verbatim>\<open>m_vbo\<close>, not on the flag
  \<^verbatim>\<open>m_useVBO\<close>, so it always takes the buffer-object branch and never reaches
  \<^verbatim>\<open>freeDevice()\<close>. After \<^verbatim>\<open>alloc(4)\<close> (no buffer object, single-buffered) and
  \<^verbatim>\<open>free()\<close> the host block is gone, but the block of \<^verbatim>\<open>cudaMalloc\<close> is still
  allocated and \<^verbatim>\<open>m_dptr[0]\<close> still points to it.
\<close>

theorem free_leaves_device_memory:
  "map_option getDevicePtr
     (array_of (run_ops [Alloc 4 False False False, Free] (GpuArray False False, demo_world)))
     = Some (DevBlock 12) \<and>
   map_option (dev_block 12)
     (world_of (run_ops [Alloc 4 False False False, Free] (GpuArray False False, demo_world)))
     = Some (Some [0, 0, 0, 0]) \<and>
   map_option (host_block 11)
     (world_of (run_ops [Alloc 4 False False False, Free] (GpuArray False False, demo_world)))
     = Some None \<and>
   map_option (host_block 11)
     (world_of (run_ops [Alloc 4 False False False] (GpuArray False False, demo_world)))
     = Some (Some [0, 0, 0, 0])"
  by (simp add: cuda_defs ga_defs demo_world_def Let_def upt_rec obs_defs)

section \<open>\<^verbatim>\<open>swap\<close>\<close>

text \<open>
  C6 (as the code has it). \<^verbatim>\<open>swap()\<close> checks nothing and reports nothing. On a
  double-buffered instance it is the exchange of the two indices that the specification
  defines; on an instance that is not double-buffered, with both indices 0, it returns
  normally and leaves the instance as it was.
\<close>

theorem swap_unchecked:
  "(m_doubleBuffer g \<longrightarrow> swap_spec g = Inr (swap g)) \<and>
   (\<not> m_doubleBuffer g \<and> role_inv g \<longrightarrow> swap g = g)"
  by (simp add: swap_spec_def swap_def role_inv_def)

theorem swap_unchecked_witness:
  "m_doubleBuffer demo_array \<and> swap_spec demo_array = Inr (swap demo_array) \<and>
   \<not> m_doubleBuffer (GpuArray False False) \<and> role_inv (GpuArray False False) \<and>
   swap (GpuArray False False) = GpuArray False False"
  using swap_unchecked[of demo_array] swap_unchecked[of "GpuArray False False"]
  by (simp add: demo_array_def GpuArray_def role_inv_def)

text \<open>
  C6 as stated fails: on an allocated instance without double buffering the specified
  \<^verbatim>\<open>swap\<close> is a usage error, the one of the code returns the instance unchanged.
\<close>

theorem swap_single_buffer_not_rejected:
  "map_option m_doubleBuffer
     (array_of (alloc 4 False False False (GpuArray False False) demo_world)) = Some False \<and>
   map_option swap_spec
     (array_of (alloc 4 False False False (GpuArray False False) demo_world))
     = Some (Inl UsageError) \<and>
   map_option swap
     (array_of (alloc 4 False False False (GpuArray False False) demo_world))
     = array_of (alloc 4 False False False (GpuArray False False) demo_world)"
  by (simp add: cuda_defs ga_defs demo_world_def Let_def upt_rec obs_defs swap_spec_def)

section \<open>The device context around \<^verbatim>\<open>copy\<close>\<close>




section \<open>The device pointer after \<^verbatim>\<open>unmap\<close>\<close>

text \<open>
  C8 (as the code has it). Take a new instance whose first and only \<^verbatim>\<open>alloc\<close> asks
  for a buffer object, its roles swapped any number of times. While it is mapped,
  \<^verbatim>\<open>getDevicePtr\<close> is the address of the store of the read buffer. After
  \<^verbatim>\<open>unmap\<close>, whatever the device wrote in between, \<^verbatim>\<open>getDevicePtr\<close> is the null
  pointer, not that address; so is \<^verbatim>\<open>getDeviceWritePtr\<close>.
\<close>

theorem unmapped_device_pointer_null:
  assumes "alloc sz True db ea (GpuArray u d) w = Inr (g0, w0)"
    and "map_GpuArray ((swap ^^ k) g0) w1 = Inr (g1, w2)"
    and "unmap g1 w3 = Inr (g2, w4)"
  shows "getDevicePtr g1 = VboBlock (getVbo ((swap ^^ k) g0)) \<and>
         getDevicePtr g2 = DevNull \<and> getDeviceWritePtr g2 = DevNull \<and>
         getDevicePtr g2 \<noteq> getDevicePtr g1"
proof -
  let ?g = "(swap ^^ k) g0"
  have b: "vbo_backed ?g"
    using alloc_vbo_backed[OF assms(1)] by (rule vbo_backed_swaps)
  have s1: "same_but_dptr ?g g1" using assms(2) by (rule map_GpuArray_shape)
  have s2: "same_but_dptr g1 g2" using assms(3) by (rule unmap_shape)
  have b1: "vbo_backed g1" using s1 b by (rule vbo_backed_same)
  have b2: "vbo_backed g2" using s2 b1 by (rule vbo_backed_same)
  have p1: "getDevicePtr g1 = VboBlock (getVbo ?g)"
    using map_GpuArray_vbo_backed[OF assms(2) b] vbo_backed_read(1)[OF b] s1
    by (auto simp: getDevicePtr_def getVbo_def same_but_dptr_def at2_def)
  have p2: "getDevicePtr g2 = DevNull"
    using unmap_vbo_backed[OF assms(3) b1] vbo_backed_read(1)[OF b2] s2
    by (auto simp: getDevicePtr_def same_but_dptr_def at2_def)
  have p3: "getDeviceWritePtr g2 = DevNull"
    using unmap_vbo_backed[OF assms(3) b1] vbo_backed_read(2)[OF b2] s2
    by (auto simp: getDeviceWritePtr_def same_but_dptr_def at2_def)
  from p1 p2 p3 show ?thesis by simp
qed

theorem unmapped_device_pointer_null_witness:
  "alloc 4 True True False (GpuArray False False) demo_world
     = Inr (demo_vbo_array, demo_vbo_world) \<and>
   map_GpuArray ((swap ^^ 1) demo_vbo_array) demo_vbo_data_world
     = Inr (demo_mapped_array, demo_mapped_world) \<and>
   dev_write (getDevicePtr demo_mapped_array) [9, 9, 9, 9] demo_mapped_world
     = demo_written_world \<and>
   unmap demo_mapped_array demo_written_world = Inr (swap demo_vbo_array, demo_unmapped_world) \<and>
   getDevicePtr demo_mapped_array = VboBlock 13 \<and>
   getDevicePtr (swap demo_vbo_array) = DevNull \<and>
   getDeviceWritePtr (swap demo_vbo_array) = DevNull"
proof -
  have m: "map_GpuArray ((swap ^^ 1) demo_vbo_array) demo_vbo_data_world
     = Inr (demo_mapped_array, demo_mapped_world)"
    by (simp add: cuda_defs ga_defs demo_defs demo_map_defs)
  have w: "dev_write (getDevicePtr demo_mapped_array) [9, 9, 9, 9] demo_mapped_world
     = demo_written_world"
    by (simp add: cuda_defs ga_defs demo_defs demo_map_defs getDevicePtr_def)
  have u: "unmap demo_mapped_array demo_written_world
     = Inr (swap demo_vbo_array, demo_unmapped_world)"
    by (simp add: cuda_defs ga_defs demo_defs demo_map_defs)
  from unmapped_device_pointer_null[OF demo_vbo_alloc m u]
  have "getDevicePtr demo_mapped_array = VboBlock (getVbo ((swap ^^ 1) demo_vbo_array)) \<and>
        getDevicePtr (swap demo_vbo_array) = DevNull \<and>
        getDeviceWritePtr (swap demo_vbo_array) = DevNull" by simp
  moreover have "getVbo ((swap ^^ 1) demo_vbo_array) = 13"
    by (simp add: getVbo_def ga_defs demo_defs)
  ultimately show ?thesis using demo_vbo_alloc m w u by simp
qed

text \<open>
  C8 as stated fails on an instance that is allocated a second time: \<^verbatim>\<open>alloc\<close> resets
  neither the indices nor the device pointers. After \<^verbatim>\<open>alloc(4, false, true)\<close>,
  \<^verbatim>\<open>swap\<close>, \<^verbatim>\<open>free\<close> and \<^verbatim>\<open>alloc(4, true, false)\<close> the instance is backed by
  the buffer object 15 in slot 0, and reads slot 1, which has no buffer object and still
  holds the address of the second block of the first allocation, which \<^verbatim>\<open>free\<close> did
  not release. \<^verbatim>\<open>map\<close> and \<^verbatim>\<open>unmap\<close> write slot 0 only: \<^verbatim>\<open>getDevicePtr\<close> is
  that address while mapped and after \<^verbatim>\<open>unmap\<close>, not the null pointer.
\<close>

theorem realloc_device_pointer_not_null:
  "map_option m_useVBO
     (array_of (run_ops [Alloc 4 False True False, Swap, Free, Alloc 4 True False False]
        (GpuArray False False, demo_world))) = Some True \<and>
   map_option m_vbo
     (array_of (run_ops [Alloc 4 False True False, Swap, Free, Alloc 4 True False False]
        (GpuArray False False, demo_world))) = Some (15, 0) \<and>
   map_option m_currentRead
     (array_of (run_ops [Alloc 4 False True False, Swap, Free, Alloc 4 True False False]
        (GpuArray False False, demo_world))) = Some 1 \<and>
   map_option m_dptr
     (array_of (run_ops [Alloc 4 False True False, Swap, Free, Alloc 4 True False False, Map]
        (GpuArray False False, demo_world))) = Some (VboBlock 15, DevBlock 13) \<and>
   map_option getDevicePtr
     (array_of (run_ops [Alloc 4 False True False, Swap, Free, Alloc 4 True False False, Map]
        (GpuArray False False, demo_world))) = Some (DevBlock 13) \<and>
   map_option m_dptr
     (array_of (run_ops [Alloc 4 False True False, Swap, Free, Alloc 4 True False False, Map,
                         Unmap]
        (GpuArray False False, demo_world))) = Some (DevNull, DevBlock 13) \<and>
   map_option getDevicePtr
     (array_of (run_ops [Alloc 4 False True False, Swap, Free, Alloc 4 True False False, Map,
                         Unmap]
        (GpuArray False False, demo_world))) = Some (DevBlock 13) \<and>
   map_option (dev_block 13)
     (world_of (run_ops [Alloc 4 False True False, Swap, Free, Alloc 4 True False False, Map,
                         Unmap]
        (GpuArray False False, demo_world))) = Some (Some [0, 0, 0, 0])"
  by (simp add: cuda_defs ga_defs demo_world_def Let_def upt_rec obs_defs)

section \<open>\<^verbatim>\<open>memset\<close>\<close>

text \<open>
  C10. \<^verbatim>\<open>memset(value, start, count)\<close> changes nothing, whatever its arguments: the
  instance (indices, flags, pointers, buffer names) and the world (host array, device
  slots, buffer objects) are those before the call, and a run goes on as if the call
  were not there.
\<close>

theorem memset_changes_nothing:
  "memset val start count g w = (g, w) \<and>
   run_ops (Memset val start count # ops) (g, w) = run_ops ops (g, w)"
  by (simp add: memset_def then_do_def)

section \<open>\<^verbatim>\<open>copy\<close>\<close>

text \<open>
  C4 (as the code has it). An allocated buffer is an instance and a world with
  \<open>allocated\<close>: the state in which \<^verbatim>\<open>alloc\<close> leaves a new instance, kept by
  \<^verbatim>\<open>swap\<close> and by \<^verbatim>\<open>copy\<close>; an instance that is allocated a second time need
  not be in it. On an allocated buffer, let \<open>n\<close> be the number of elements \<^verbatim>\<open>copy\<close>
  asks for: \<^verbatim>\<open>count\<close>, or, when \<^verbatim>\<open>count\<close> is 0, \<^verbatim>\<open>(uint) m_size\<close>, the size
  modulo \<open>2^32\<close>. When the \<open>n\<close> elements from \<^verbatim>\<open>start\<close> on lie inside the buffer,
  \<^verbatim>\<open>copy(HOST_TO_DEVICE, start, count)\<close> returns and has written exactly these
  elements of the host array over the device slot selected by \<^verbatim>\<open>currentRead\<close>, the
  host array untouched; \<^verbatim>\<open>copy(DEVICE_TO_HOST, start, count)\<close> returns and has written
  exactly these elements of that slot over the host array. The slot is taken as the
  transfer finds it, \<open>v\<close>: a block of device memory as it was, a buffer object as the
  driver leaves it when it is mapped with the write-discard flag; so it is left, but for
  the elements written. With \<^verbatim>\<open>count\<close> 0, on a buffer whose size fits a \<^verbatim>\<open>uint\<close>,
  all elements are transferred: the destination becomes equal to the source.
\<close>

theorem copy_transfers:
  assumes "allocated g w"
    and "n = copy_count g count"
    and "unat start + n \<le> unat (m_size g)"
  shows "\<exists>h d v. host_data g w = Some h \<and> slot_data g w (m_currentRead g) = Some d \<and>
           slot_view g w (m_currentRead g) = Some v \<and>
           v = (if discards g w (m_currentRead g) then map (discard w) d else d) \<and>
           (\<exists>w' d'. copy HOST_TO_DEVICE start count g w = Inr (g, w') \<and>
              host_data g w' = Some h \<and> slot_data g w' (m_currentRead g) = Some d' \<and>
              moved h v d' (unat start) n \<and>
              (count = 0 \<and> unat (m_size g) < 2 ^ 32 \<longrightarrow> d' = h)) \<and>
           (\<exists>w' h'. copy DEVICE_TO_HOST start count g w = Inr (g, w') \<and>
              host_data g w' = Some h' \<and> slot_data g w' (m_currentRead g) = Some v \<and>
              moved v h h' (unat start) n \<and>
              (count = 0 \<and> unat (m_size g) < 2 ^ 32 \<longrightarrow> h' = v)) \<and>
           (count \<noteq> 0 \<longrightarrow> n = unat count) \<and>
           (count = 0 \<longrightarrow> n = unat (m_size g) mod 2 ^ 32) \<and>
           (count = 0 \<and> unat (m_size g) < 2 ^ 32 \<longrightarrow> n = unat (m_size g) \<and> start = 0)"
proof -
  let ?s = "unat start" and ?r = "m_currentRead g"
  let ?k = "discards g w ?r"
  from allocated_slot[OF assms(1)] obtain h d where
    h: "host_data g w = Some h" and d: "slot_data g w ?r = Some d" and
    v: "slot_view g w ?r = Some (if ?k then map (discard w) d else d)" and
    lh: "length h = unat (m_size g)" and ld: "length d = unat (m_size g)"
    by blast
  let ?v = "if ?k then map (discard w) d else d"
  have lv: "length ?v = unat (m_size g)" using ld by simp
  from assms(2,3) have n: "unat start + copy_count g count \<le> unat (m_size g)" by simp
  have all: "n = unat (m_size g) \<and> start = 0" if "count = 0" "unat (m_size g) < 2 ^ 32"
    using that assms(2,3) copy_count_small[of g] by (simp add: unat_eq_0)
  from copy_allocated(1)[OF assms(1) h v n] obtain w1 where
    c1: "copy HOST_TO_DEVICE start count g w = Inr (g, w1)" and
    h1: "host_data g w1 = Some h" and
    d1: "slot_data g w1 ?r = Some (blit ?v ?s h ?s n)"
    using assms(2) by blast
  have m1: "moved h ?v (blit ?v ?s h ?s n) ?s n"
    using assms(3) lh lv by (simp add: moved_blit)
  have a1: "blit ?v ?s h ?s n = h" if "count = 0" "unat (m_size g) < 2 ^ 32"
    using moved_all[of h ?v "blit ?v ?s h ?s n"] all[OF that] m1 lh lv by simp
  from copy_allocated(2)[OF assms(1) h v n] obtain w2 where
    c2: "copy DEVICE_TO_HOST start count g w = Inr (g, w2)" and
    h2: "host_data g w2 = Some (blit h ?s ?v ?s n)" and
    d2: "slot_data g w2 ?r = Some ?v"
    using assms(2) by blast
  have m2: "moved ?v h (blit h ?s ?v ?s n) ?s n"
    using assms(3) lh lv by (simp add: moved_blit)
  have a2: "blit h ?s ?v ?s n = ?v" if "count = 0" "unat (m_size g) < 2 ^ 32"
    using moved_all[of ?v h "blit h ?s ?v ?s n"] all[OF that] m2 lh lv by simp
  have nz: "count \<noteq> 0 \<longrightarrow> n = unat count"
    using assms(2) by (simp add: copy_count_nonzero)
  have z: "count = 0 \<longrightarrow> n = unat (m_size g) mod 2 ^ 32"
    using assms(2) by (simp add: copy_count_zero)
  have p1: "\<exists>w' d'. copy HOST_TO_DEVICE start count g w = Inr (g, w') \<and>
              host_data g w' = Some h \<and> slot_data g w' ?r = Some d' \<and>
              moved h ?v d' ?s n \<and>
              (count = 0 \<and> unat (m_size g) < 2 ^ 32 \<longrightarrow> d' = h)"
    using c1 h1 d1 m1 a1 by blast
  have p2: "\<exists>w' h'. copy DEVICE_TO_HOST start count g w = Inr (g, w') \<and>
              host_data g w' = Some h' \<and> slot_data g w' ?r = Some ?v \<and>
              moved ?v h h' ?s n \<and>
              (count = 0 \<and> unat (m_size g) < 2 ^ 32 \<longrightarrow> h' = ?v)"
    using c2 h2 d2 m2 a2 by blast
  show ?thesis
    apply (rule exI[of _ h], rule exI[of _ d], rule exI[of _ ?v])
    using h d v p1 p2 nz z all by blast
qed

theorem copy_transfers_witness:
  "allocated demo_array demo_data_world \<and>
   (2::nat) = copy_count demo_array 2 \<and>
   unat (1 :: 32 word) + 2 \<le> unat (m_size demo_array) \<and>
   map_option seen_host (ok_state (copy HOST_TO_DEVICE 1 2 demo_array demo_data_world))
     = Some (Some [10, 20, 30, 40]) \<and>
   map_option (seen_slot 0) (ok_state (copy HOST_TO_DEVICE 1 2 demo_array demo_data_world))
     = Some (Some [1, 20, 30, 4]) \<and>
   map_option seen_host (ok_state (copy DEVICE_TO_HOST 1 2 demo_array demo_data_world))
     = Some (Some [10, 2, 3, 40]) \<and>
   map_option (seen_slot 0) (ok_state (copy DEVICE_TO_HOST 1 2 demo_array demo_data_world))
     = Some (Some [1, 2, 3, 4]) \<and>
   (4::nat) = copy_count demo_array 0 \<and>
   unat (0 :: 32 word) + 4 \<le> unat (m_size demo_array) \<and>
   unat (m_size demo_array) < 2 ^ 32 \<and>
   map_option (seen_slot 0) (ok_state (copy HOST_TO_DEVICE 0 0 demo_array demo_data_world))
     = Some (Some [10, 20, 30, 40]) \<and>
   map_option seen_host (ok_state (copy DEVICE_TO_HOST 0 0 demo_array demo_data_world))
     = Some (Some [1, 2, 3, 4])"
proof -
  have a: "allocated demo_array demo_data_world"
    by (simp add: demo_defs obs_defs at2_def host_read_def)
  have n: "(2::nat) = copy_count demo_array 2"
    by (simp add: copy_count_def)
  have r: "unat (1 :: 32 word) + 2 \<le> unat (m_size demo_array)"
    by (simp add: demo_array_def)
  have hv: "host_data demo_array demo_data_world = Some [10, 20, 30, 40]"
    by (simp add: demo_defs obs_defs host_read_def)
  have dv: "slot_data demo_array demo_data_world (m_currentRead demo_array) = Some [1, 2, 3, 4]"
    by (simp add: demo_defs obs_defs at2_def)
  have k: "\<not> discards demo_array demo_data_world (m_currentRead demo_array)"
    by (simp add: demo_defs obs_defs)
  have cr: "m_currentRead demo_array = 0" by (simp add: demo_array_def)
  from copy_transfers[OF a n r] obtain h d v where
    p: "host_data demo_array demo_data_world = Some h"
       "slot_data demo_array demo_data_world (m_currentRead demo_array) = Some d"
       "v = (if discards demo_array demo_data_world (m_currentRead demo_array)
             then map (discard demo_data_world) d else d)" and
    q1: "\<exists>w' d'. copy HOST_TO_DEVICE 1 2 demo_array demo_data_world = Inr (demo_array, w') \<and>
           host_data demo_array w' = Some h \<and>
           slot_data demo_array w' (m_currentRead demo_array) = Some d' \<and>
           moved h v d' (unat (1 :: 32 word)) 2 \<and>
           ((2 :: 32 word) = 0 \<and> unat (m_size demo_array) < 2 ^ 32 \<longrightarrow> d' = h)" and
    q2: "\<exists>w' h'. copy DEVICE_TO_HOST 1 2 demo_array demo_data_world = Inr (demo_array, w') \<and>
           host_data demo_array w' = Some h' \<and>
           slot_data demo_array w' (m_currentRead demo_array) = Some v \<and>
           moved v h h' (unat (1 :: 32 word)) 2 \<and>
           ((2 :: 32 word) = 0 \<and> unat (m_size demo_array) < 2 ^ 32 \<longrightarrow> h' = v)"
    by blast
  from p hv dv k have hd: "h = [10, 20, 30, 40]" "v = [1, 2, 3, 4]" by simp_all
  from q1 obtain w1 d1 where
    c1: "copy HOST_TO_DEVICE 1 2 demo_array demo_data_world = Inr (demo_array, w1)"
        "host_data demo_array w1 = Some h"
        "slot_data demo_array w1 (m_currentRead demo_array) = Some d1"
        "moved h v d1 (unat (1 :: 32 word)) 2"
    by blast
  from q2 obtain w2 h2 where
    c2: "copy DEVICE_TO_HOST 1 2 demo_array demo_data_world = Inr (demo_array, w2)"
        "host_data demo_array w2 = Some h2"
        "slot_data demo_array w2 (m_currentRead demo_array) = Some v"
        "moved v h h2 (unat (1 :: 32 word)) 2"
    by blast
  have d1: "d1 = [1, 20, 30, 4]"
    using moved_list4[OF c1(4)[unfolded hd]] by simp
  have h2: "h2 = [10, 2, 3, 40]"
    using moved_list4[OF c2(4)[unfolded hd]] by simp
  have e1: "map_option seen_host
     (ok_state (copy HOST_TO_DEVICE 1 2 demo_array demo_data_world))
     = Some (Some [10, 20, 30, 40])"
    using c1(1,2) hd by (simp add: ok_state_def seen_host_def)
  have e2: "map_option (seen_slot 0)
     (ok_state (copy HOST_TO_DEVICE 1 2 demo_array demo_data_world))
     = Some (Some [1, 20, 30, 4])"
    using c1(1,3) d1 cr by (simp add: ok_state_def seen_slot_def)
  have e3: "map_option seen_host
     (ok_state (copy DEVICE_TO_HOST 1 2 demo_array demo_data_world))
     = Some (Some [10, 2, 3, 40])"
    using c2(1,2) h2 by (simp add: ok_state_def seen_host_def)
  have e4: "map_option (seen_slot 0)
     (ok_state (copy DEVICE_TO_HOST 1 2 demo_array demo_data_world))
     = Some (Some [1, 2, 3, 4])"
    using c2(1,3) hd cr by (simp add: ok_state_def seen_slot_def)
  have n0: "(4::nat) = copy_count demo_array 0"
    by (simp add: copy_count_def demo_array_def)
  have r0: "unat (0 :: 32 word) + 4 \<le> unat (m_size demo_array)"
    by (simp add: demo_array_def)
  have z: "unat (m_size demo_array) < 2 ^ 32"
    by (simp add: demo_array_def)
  from copy_transfers[OF a n0 r0] obtain h0 d0 v0 where
    p0: "host_data demo_array demo_data_world = Some h0"
       "slot_data demo_array demo_data_world (m_currentRead demo_array) = Some d0"
       "v0 = (if discards demo_array demo_data_world (m_currentRead demo_array)
             then map (discard demo_data_world) d0 else d0)" and
    q3: "\<exists>w' d'. copy HOST_TO_DEVICE 0 0 demo_array demo_data_world = Inr (demo_array, w') \<and>
           host_data demo_array w' = Some h0 \<and>
           slot_data demo_array w' (m_currentRead demo_array) = Some d' \<and>
           moved h0 v0 d' (unat (0 :: 32 word)) 4 \<and>
           ((0 :: 32 word) = 0 \<and> unat (m_size demo_array) < 2 ^ 32 \<longrightarrow> d' = h0)" and
    q4: "\<exists>w' h'. copy DEVICE_TO_HOST 0 0 demo_array demo_data_world = Inr (demo_array, w') \<and>
           host_data demo_array w' = Some h' \<and>
           slot_data demo_array w' (m_currentRead demo_array) = Some v0 \<and>
           moved v0 h0 h' (unat (0 :: 32 word)) 4 \<and>
           ((0 :: 32 word) = 0 \<and> unat (m_size demo_array) < 2 ^ 32 \<longrightarrow> h' = v0)"
    by blast
  from p0 hv dv k have hd0: "h0 = [10, 20, 30, 40]" "v0 = [1, 2, 3, 4]" by simp_all
  from q3 z obtain w3 where
    c3: "copy HOST_TO_DEVICE 0 0 demo_array demo_data_world = Inr (demo_array, w3)"
        "slot_data demo_array w3 (m_currentRead demo_array) = Some h0"
    by blast
  from q4 z obtain w4 where
    c4: "copy DEVICE_TO_HOST 0 0 demo_array demo_data_world = Inr (demo_array, w4)"
        "host_data demo_array w4 = Some v0"
    by blast
  have e5: "map_option (seen_slot 0)
     (ok_state (copy HOST_TO_DEVICE 0 0 demo_array demo_data_world))
     = Some (Some [10, 20, 30, 40])"
    using c3 hd0 cr by (simp add: ok_state_def seen_slot_def)
  have e6: "map_option seen_host
     (ok_state (copy DEVICE_TO_HOST 0 0 demo_array demo_data_world))
     = Some (Some [1, 2, 3, 4])"
    using c4 hd0 by (simp add: ok_state_def seen_host_def)
  show ?thesis
    using a n r e1 e2 e3 e4 n0 r0 z e5 e6 by - (intro conjI, assumption+)
qed

text \<open>
  C4 as stated fails for \<^verbatim>\<open>count = 0\<close> on a buffer of \<open>2^32\<close> elements or more:
  \<^verbatim>\<open>count = (uint) m_size\<close> keeps the low 32 bits of the size. On a buffer of
  \<open>2^32\<close> elements, host array all ones and device slot all zeros, \<^verbatim>\<open>copy\<close> with
  \<^verbatim>\<open>count = 0\<close> asks \<^verbatim>\<open>cudaMemcpy\<close> for no element at all: in either direction
  it returns with the host array and the device slot as they were.
\<close>

theorem copy_count_zero_truncated:
  "allocated big_array big_world \<and>
   unat (m_size big_array) = 2 ^ 32 \<and>
   copy_count big_array 0 = 0 \<and>
   seen_host (big_array, big_world) = Some (big_block 1) \<and>
   seen_slot 0 (big_array, big_world) = Some (big_block 0) \<and>
   big_block 0 \<noteq> big_block 1 \<and>
   map_option seen_host (ok_state (copy HOST_TO_DEVICE 0 0 big_array big_world))
     = Some (Some (big_block 1)) \<and>
   map_option (seen_slot 0) (ok_state (copy HOST_TO_DEVICE 0 0 big_array big_world))
     = Some (Some (big_block 0)) \<and>
   map_option seen_host (ok_state (copy DEVICE_TO_HOST 0 0 big_array big_world))
     = Some (Some (big_block 1)) \<and>
   map_option (seen_slot 0) (ok_state (copy DEVICE_TO_HOST 0 0 big_array big_world))
     = Some (Some (big_block 0))"
  using allocated_big big_block_differ
  by (simp add: cuda_defs ga_defs obs_defs Let_def big_array_def big_world_def demo_world_def
        length_big_block)

text \<open>
  The restriction to a single \<^verbatim>\<open>alloc\<close> is needed as well. After
  \<^verbatim>\<open>alloc(4, true, true)\<close>, \<^verbatim>\<open>swap\<close>, \<^verbatim>\<open>free\<close> and \<^verbatim>\<open>alloc(4, true, false)\<close>
  the instance reads slot 1, which the second \<^verbatim>\<open>alloc\<close> left without a buffer
  object: \<^verbatim>\<open>copy\<close> hands \<^verbatim>\<open>cudaMemcpy\<close> a null device pointer, and
  \<^verbatim>\<open>cutilSafeCall\<close> ends the process.
\<close>

lemma copy_after_realloc_exits:
  "map_option m_currentRead
     (array_of (run_ops [Alloc 4 True True False, Swap, Free, Alloc 4 True False False]
        (GpuArray False False, demo_world))) = Some 1 \<and>
   map_option m_vbo
     (array_of (run_ops [Alloc 4 True True False, Swap, Free, Alloc 4 True False False]
        (GpuArray False False, demo_world))) = Some (15, 0) \<and>
   map_option getDevicePtr
     (array_of (run_ops [Alloc 4 True True False, Swap, Free, Alloc 4 True False False]
        (GpuArray False False, demo_world))) = Some DevNull \<and>
   run_ops [Alloc 4 True True False, Swap, Free, Alloc 4 True False False,
            Copy HOST_TO_DEVICE 0 0] (GpuArray False False, demo_world)
     = Inl (Exit cudaErrorInvalidValue)"
  by (simp add: cuda_defs ga_defs demo_world_def Let_def upt_rec obs_defs)

section \<open>Host to device and back\<close>

text \<open>
  C7 (as the code has it). On an allocated buffer, as for C4, take \<^verbatim>\<open>count\<close> from 1 to
  the size and \<^verbatim>\<open>start\<close> with \<^verbatim>\<open>start + count\<close> at most the size, or
  \<^verbatim>\<open>count = 0\<close> with \<^verbatim>\<open>start = 0\<close>. Then \<^verbatim>\<open>copy(HOST_TO_DEVICE, start, count)\<close>
  followed by \<^verbatim>\<open>copy(DEVICE_TO_HOST, start, count)\<close> returns with the host array as it
  was, provided that, when the read slot is a buffer object mapped with the
  write-discard flag, the driver keeps the elements that were copied. After the first
  copy the read slot holds the elements of the host array from \<^verbatim>\<open>start\<close> on, as many
  as \<^verbatim>\<open>copy\<close> asks for: \<^verbatim>\<open>count\<close>, or, when \<^verbatim>\<open>count\<close> is 0, the size modulo
  \<open>2^32\<close>, which is the whole buffer only when its size fits a \<^verbatim>\<open>uint\<close>.
\<close>

theorem copy_round_trip:
  assumes "allocated g w" and "host_data g w = Some h"
    and "count \<noteq> 0 \<and> unat start + unat count \<le> unat (m_size g) \<or> count = 0 \<and> start = 0"
    and "discards g w (m_currentRead g) \<longrightarrow>
           (\<forall>x \<in> set (take (copy_count g count) (drop (unat start) h)). discard w x = x)"
  shows "\<exists>w1 w2 d1. copy HOST_TO_DEVICE start count g w = Inr (g, w1) \<and>
           copy DEVICE_TO_HOST start count g w1 = Inr (g, w2) \<and>
           host_data g w2 = Some h \<and>
           slot_data g w1 (m_currentRead g) = Some d1 \<and>
           take (copy_count g count) (drop (unat start) d1)
             = take (copy_count g count) (drop (unat start) h) \<and>
           copy_count g count
             = (if count = 0 then unat (m_size g) mod 2 ^ 32 else unat count)"
proof -
  let ?s = "unat start" and ?r = "m_currentRead g" and ?n = "copy_count g count"
  from allocated_view[OF assms(1)] assms(2) obtain v where
    v: "slot_view g w ?r = Some v" and
    lh: "length h = unat (m_size g)" and lv: "length v = unat (m_size g)"
    by auto
  from assms(3) have n: "?s + ?n \<le> unat (m_size g)"
    using copy_count_le[of g] by (auto simp: copy_count_nonzero)
  from copy_allocated(1)[OF assms(1,2) v n] obtain w1 where
    c1: "copy HOST_TO_DEVICE start count g w = Inr (g, w1)" and
    a1: "allocated g w1" and h1: "host_data g w1 = Some h" and
    d1: "slot_data g w1 ?r = Some (blit v ?s h ?s ?n)" and
    k1: "discards g w1 ?r = discards g w ?r" and di: "discard w1 = discard w"
    by blast
  let ?d = "blit v ?s h ?s ?n"
  let ?v1 = "if discards g w ?r then map (discard w) ?d else ?d"
  have v1: "slot_view g w1 ?r = Some ?v1"
    using d1 k1 di by (simp add: slot_view_def)
  from copy_allocated(2)[OF a1 h1 v1 n] obtain w2 where
    c2: "copy DEVICE_TO_HOST start count g w1 = Inr (g, w2)" and
    h2: "host_data g w2 = Some (blit h ?s ?v1 ?s ?n)"
    by blast
  have ld: "length ?d = unat (m_size g)" using n lh lv by (simp add: length_blit)
  have "blit h ?s ?v1 ?s ?n = h"
  proof (rule blit_same)
    show "?s + ?n \<le> length h" using n lh by simp
    show "?s + ?n \<le> length ?v1" using n ld by simp
    fix i assume i: "?s \<le> i" "i < ?s + ?n"
    then have il: "i < length v" using n lv by simp
    have di: "?d ! i = h ! i" using i n lh lv il by (simp add: nth_blit)
    show "?v1 ! i = h ! i"
    proof (cases "discards g w ?r")
      case False
      with di show ?thesis by simp
    next
      case True
      have "h ! i \<in> set (take ?n (drop ?s h))"
        using in_set_take_drop[OF i, of h] n lh by simp
      with True assms(4) have "discard w (h ! i) = h ! i" by blast
      with True di il ld lv show ?thesis by simp
    qed
  qed
  with h2 have h3: "host_data g w2 = Some h" by simp
  have t: "take ?n (drop ?s ?d) = take ?n (drop ?s h)"
    using n lh lv by (simp add: take_drop_blit)
  have c: "?n = (if count = 0 then unat (m_size g) mod 2 ^ 32 else unat count)"
    by (simp add: copy_count_zero copy_count_nonzero)
  from c1 c2 h3 d1 t c show ?thesis by blast
qed

theorem copy_round_trip_witness:
  "allocated demo_vbo_array demo_vbo_data_world \<and>
   host_data demo_vbo_array demo_vbo_data_world = Some [10, 20, 30, 40] \<and>
   (2 :: 32 word) \<noteq> 0 \<and> unat (1 :: 32 word) + unat (2 :: 32 word) \<le> unat (m_size demo_vbo_array) \<and>
   discards demo_vbo_array demo_vbo_data_world (m_currentRead demo_vbo_array) \<and>
   list_all (\<lambda>x. discard demo_vbo_data_world x = x)
     (take (copy_count demo_vbo_array 2) (drop (unat (1 :: 32 word)) [10, 20, 30, 40])) \<and>
   map_option seen_host
     (ok_state (run_ops [Copy HOST_TO_DEVICE 1 2, Copy DEVICE_TO_HOST 1 2]
        (demo_vbo_array, demo_vbo_data_world)))
     = Some (Some [10, 20, 30, 40]) \<and>
   allocated demo_array demo_data_world \<and>
   host_data demo_array demo_data_world = Some [10, 20, 30, 40] \<and>
   \<not> discards demo_array demo_data_world (m_currentRead demo_array) \<and>
   map_option seen_host
     (ok_state (run_ops [Copy HOST_TO_DEVICE 0 0, Copy DEVICE_TO_HOST 0 0]
        (demo_array, demo_data_world)))
     = Some (Some [10, 20, 30, 40])"
proof -
  have a: "allocated demo_vbo_array demo_vbo_data_world"
    by (simp add: demo_defs obs_defs at2_def host_read_def)
  have h: "host_data demo_vbo_array demo_vbo_data_world = Some [10, 20, 30, 40]"
    by (simp add: demo_defs obs_defs host_read_def)
  have c: "(2 :: 32 word) \<noteq> 0 \<and> unat (1 :: 32 word) + unat (2 :: 32 word) \<le> unat (m_size demo_vbo_array)
           \<or> (2 :: 32 word) = 0 \<and> (1 :: 32 word) = 0"
    by (simp add: demo_defs)
  have d: "discards demo_vbo_array demo_vbo_data_world (m_currentRead demo_vbo_array)"
    by (simp add: demo_defs obs_defs at2_def)
  have k: "list_all (\<lambda>x. discard demo_vbo_data_world x = x)
     (take (copy_count demo_vbo_array 2) (drop (unat (1 :: 32 word)) [10, 20, 30, 40]))"
    by (simp add: demo_defs obs_defs)
  from k have k': "discards demo_vbo_array demo_vbo_data_world (m_currentRead demo_vbo_array) \<longrightarrow>
     (\<forall>x \<in> set (take (copy_count demo_vbo_array 2) (drop (unat (1 :: 32 word)) [10, 20, 30, 40])).
        discard demo_vbo_data_world x = x)"
    by (simp add: list_all_iff)
  from copy_round_trip[OF a h c k'] obtain w1 w2 where
    "copy HOST_TO_DEVICE 1 2 demo_vbo_array demo_vbo_data_world = Inr (demo_vbo_array, w1)"
    "copy DEVICE_TO_HOST 1 2 demo_vbo_array w1 = Inr (demo_vbo_array, w2)"
    "host_data demo_vbo_array w2 = Some [10, 20, 30, 40]"
    by blast
  then have "map_option seen_host
     (ok_state (run_ops [Copy HOST_TO_DEVICE 1 2, Copy DEVICE_TO_HOST 1 2]
        (demo_vbo_array, demo_vbo_data_world)))
     = Some (Some [10, 20, 30, 40])"
    by (simp add: then_do_def ok_state_def seen_host_def)
  note first = this
  have a0: "allocated demo_array demo_data_world"
    by (simp add: demo_defs obs_defs at2_def host_read_def)
  have h0: "host_data demo_array demo_data_world = Some [10, 20, 30, 40]"
    by (simp add: demo_defs obs_defs host_read_def)
  have c0: "(0 :: 32 word) \<noteq> 0 \<and> unat (0 :: 32 word) + unat (0 :: 32 word) \<le> unat (m_size demo_array)
            \<or> (0 :: 32 word) = 0 \<and> (0 :: 32 word) = 0"
    by simp
  have d0: "\<not> discards demo_array demo_data_world (m_currentRead demo_array)"
    by (simp add: demo_defs obs_defs)
  from d0 have k0: "discards demo_array demo_data_world (m_currentRead demo_array) \<longrightarrow>
     (\<forall>x \<in> set (take (copy_count demo_array 0) (drop (unat (0 :: 32 word)) [10, 20, 30, 40])).
        discard demo_data_world x = x)"
    by simp
  from copy_round_trip[OF a0 h0 c0 k0] obtain v1 v2 where
    "copy HOST_TO_DEVICE 0 0 demo_array demo_data_world = Inr (demo_array, v1)"
    "copy DEVICE_TO_HOST 0 0 demo_array v1 = Inr (demo_array, v2)"
    "host_data demo_array v2 = Some [10, 20, 30, 40]"
    by blast
  then have "map_option seen_host
     (ok_state (run_ops [Copy HOST_TO_DEVICE 0 0, Copy DEVICE_TO_HOST 0 0]
        (demo_array, demo_data_world)))
     = Some (Some [10, 20, 30, 40])"
    by (simp add: then_do_def ok_state_def seen_host_def)
  with first a h c d k a0 h0 d0 show ?thesis by simp
qed

text \<open>
  C7 as stated fails for \<^verbatim>\<open>count = 0\<close> with \<^verbatim>\<open>start > 0\<close>, which its ranges allow:
  \<^verbatim>\<open>copy\<close> takes the 0 for the size of the buffer. On a buffer of 4 elements,
  \<^verbatim>\<open>copy(HOST_TO_DEVICE, 2, 0)\<close> asks for 4 elements from offset 2, which
  \<^verbatim>\<open>cudaMemcpy\<close> refuses, and \<^verbatim>\<open>cutilSafeCall\<close> ends the process.
\<close>

theorem copy_count_zero_overruns:
  "allocated demo_array demo_data_world \<and>
   unat (0 :: 32 word) \<le> unat (m_size demo_array) \<and>
   unat (2 :: 32 word) \<le> unat (m_size demo_array) - unat (0 :: 32 word) \<and>
   copy HOST_TO_DEVICE 2 0 demo_array demo_data_world = Inl (Exit cudaErrorInvalidValue)"
  by (simp add: cuda_defs ga_defs demo_defs obs_defs Let_def)

text \<open>
  The proviso on the driver is needed: where mapping with the write-discard flag leaves
  zeros, the two copies over elements 1 and 2 of a buffer-object instance return, and the
  host array has changed.
\<close>

lemma write_discard_round_trip:
  "allocated demo_vbo_array demo_discard_world \<and>
   host_data demo_vbo_array demo_discard_world = Some [10, 20, 30, 40] \<and>
   map_option seen_host
     (ok_state (run_ops [Copy HOST_TO_DEVICE 1 2, Copy DEVICE_TO_HOST 1 2]
        (demo_vbo_array, demo_discard_world)))
     = Some (Some [10, 0, 0, 40])"
  by (simp add: cuda_defs ga_defs demo_defs obs_defs demo_discard_world_def Let_def)

section \<open>The hand-off channel\<close>



section \<open>The end of the I/O thread\<close>

text \<open>
  C9 (as the code has it). In every state that an interleaving of the two threads reaches
  from the start of the parallel region, whatever \<^verbatim>\<open>iterate\<close> does to the slot: the
  I/O thread is out of its loop only if \<^verbatim>\<open>simulationFinished\<close> is set; the signal
  has been set at most once, exactly once when thread 0 has finished and not at all
  before, and then the I/O thread is not out of its loop either; once the signal is set
  thread 0 is past \<^verbatim>\<open>iterate\<close>, so that nothing is published and the signal is not
  set again in whatever follows. Where \<^verbatim>\<open>iterate\<close> throws and there is more than one
  process, thread 0 ends the process in \<^verbatim>\<open>::abort()\<close> with the signal not set and
  the I/O thread in its loop, and nothing happens after that. Thread 0
  does not wait for its last publish: when \<^verbatim>\<open>iterate\<close> has returned, the assignment
  \<^verbatim>\<open>simulationFinished = true\<close> is its next step wherever the I/O thread is and
  whatever the flag says, and it changes nothing else. Where the I/O thread is not
  inside a drain (as it is not once out of the loop) every writer call begun has
  returned and has been followed by the assignment \<^verbatim>\<open>writingFinished = true\<close>;
  inside a drain it is not out of the loop and exactly one drain is open; once out of
  the loop it stays out and writes nothing more.
\<close>

theorem consumer_exit_protocol:
  fixes s :: "('v, 'i, 't) sys"
  assumes "s = run fr cfg evs (init sh)"
  shows "(cpc s = CExited \<longrightarrow> simulationFinished s) \<and>
         signals s \<le> 1 \<and> (simulationFinished s \<longleftrightarrow> signals s = 1) \<and>
         (ppc s = PFinished \<longleftrightarrow> signals s = 1) \<and>
         (ppc s \<noteq> PFinished \<longrightarrow> signals s = 0 \<and> cpc s \<noteq> CExited) \<and>
         (simulationFinished s \<longrightarrow>
            ppc s = PFinished \<and> published (run fr cfg later s) = published s \<and>
            signals (run fr cfg later s) = 1) \<and>
         (ppc s = PReturned \<and> \<not> aborted s \<longrightarrow>
            simulationFinished (step fr cfg SetFinished s) \<and>
            signals (step fr cfg SetFinished s) = 1 \<and>
            cpc (step fr cfg SetFinished s) = cpc s \<and>
            io (step fr cfg SetFinished s) = io s \<and>
            drains_done (step fr cfg SetFinished s) = drains_done s) \<and>
         (ppc s = PIterating \<and> \<not> aborted s \<and> 1 < nProcs cfg \<longrightarrow>
            aborted (step fr cfg IterateThrows s) \<and>
            signals (step fr cfg IterateThrows s) = 0 \<and>
            \<not> simulationFinished (step fr cfg IterateThrows s) \<and>
            cpc (step fr cfg IterateThrows s) \<noteq> CExited) \<and>
         (aborted s \<longrightarrow> run fr cfg later s = s) \<and>
         (between_drains (cpc s) \<longrightarrow>
            drains_done s = drains_begun s \<and> length (disk (io s)) = drains_begun s) \<and>
         (\<not> between_drains (cpc s) \<longrightarrow> cpc s \<noteq> CExited \<and> drains_begun s = drains_done s + 1) \<and>
         (cpc s = CExited \<longrightarrow>
            cpc (run fr cfg later s) = CExited \<and> disk (io (run fr cfg later s)) = disk (io s))"
proof -
  have i: "handoff_inv s"
    unfolding assms by (rule run_inv) (rule handoff_inv_init)
  have "simulationFinished s \<longrightarrow>
            ppc s = PFinished \<and> published (run fr cfg later s) = published s \<and>
            signals (run fr cfg later s) = 1"
    using i run_after_signal[of s fr cfg later] by (auto simp: handoff_inv_def)
  moreover have "cpc s = CExited \<longrightarrow>
            cpc (run fr cfg later s) = CExited \<and> disk (io (run fr cfg later s)) = disk (io s)"
    using run_after_exit[of s fr cfg later] by simp
  moreover have "\<not> between_drains (cpc s) \<longrightarrow> cpc s \<noteq> CExited"
    by (auto simp: between_drains_def)
  moreover have "between_drains (cpc s) \<longrightarrow> cpc s \<noteq> CWriting"
    by (auto simp: between_drains_def)
  moreover have "ppc s = PReturned \<and> \<not> aborted s \<longrightarrow>
            simulationFinished (step fr cfg SetFinished s) \<and>
            signals (step fr cfg SetFinished s) = 1 \<and>
            cpc (step fr cfg SetFinished s) = cpc s \<and>
            io (step fr cfg SetFinished s) = io s \<and>
            drains_done (step fr cfg SetFinished s) = drains_done s"
    using i by (simp add: step_def handoff_inv_def)
  moreover have "ppc s = PIterating \<and> \<not> aborted s \<and> 1 < nProcs cfg \<longrightarrow>
            aborted (step fr cfg IterateThrows s) \<and>
            signals (step fr cfg IterateThrows s) = 0 \<and>
            \<not> simulationFinished (step fr cfg IterateThrows s) \<and>
            cpc (step fr cfg IterateThrows s) \<noteq> CExited"
    using i by (auto simp: step_def handoff_inv_def)
  moreover have "aborted s \<longrightarrow> run fr cfg later s = s"
    by (simp add: run_aborted)
  ultimately show ?thesis using i by (auto simp: handoff_inv_def)
qed

theorem consumer_exit_protocol_witness:
  "cpc (run IOSharedData_free demo_config demo_schedule (init demo_shared)) = CExited \<and>
   simulationFinished (run IOSharedData_free demo_config demo_schedule (init demo_shared)) \<and>
   ppc (run IOSharedData_free demo_config demo_schedule (init demo_shared)) = PFinished \<and>
   signals (run IOSharedData_free demo_config demo_schedule (init demo_shared)) = 1 \<and>
   between_drains
     (cpc (run IOSharedData_free demo_config demo_schedule (init demo_shared))) \<and>
   drains_begun (run IOSharedData_free demo_config demo_schedule (init demo_shared)) = 1 \<and>
   drains_done (run IOSharedData_free demo_config demo_schedule (init demo_shared)) = 1 \<and>
   disk (io (run IOSharedData_free demo_config demo_schedule (init demo_shared)))
     = [demo_call] \<and>
   published (run IOSharedData_free demo_config [Publish (publish demo_snapshot), ConsumerStep]
      (run IOSharedData_free demo_config demo_schedule (init demo_shared))) = 1 \<and>
   cpc (run IOSharedData_free demo_config (take 6 demo_schedule) (init demo_shared))
     = CFree \<and>
   \<not> between_drains
       (cpc (run IOSharedData_free demo_config (take 6 demo_schedule) (init demo_shared))) \<and>
   drains_begun (run IOSharedData_free demo_config (take 6 demo_schedule) (init demo_shared))
     = 1 \<and>
   drains_done (run IOSharedData_free demo_config (take 6 demo_schedule) (init demo_shared))
     = 0 \<and>
   ppc (run IOSharedData_free demo_config (take 6 demo_schedule) (init demo_shared))
     \<noteq> PFinished \<and>
   signals (run IOSharedData_free demo_config (take 6 demo_schedule) (init demo_shared))
     = 0 \<and>
   ppc (run IOSharedData_free demo_config (take 10 demo_schedule) (init demo_shared))
     = PReturned \<and>
   \<not> aborted (run IOSharedData_free demo_config (take 10 demo_schedule) (init demo_shared)) \<and>
   simulationFinished
     (step IOSharedData_free demo_config SetFinished
        (run IOSharedData_free demo_config (take 10 demo_schedule) (init demo_shared))) \<and>
   ppc (run IOSharedData_free (demo_config\<lparr>nProcs := 2\<rparr>) (take 3 demo_schedule)
          (init demo_shared)) = PIterating \<and>
   \<not> aborted (run IOSharedData_free (demo_config\<lparr>nProcs := 2\<rparr>) (take 3 demo_schedule)
          (init demo_shared)) \<and>
   1 < nProcs (demo_config\<lparr>nProcs := 2\<rparr>) \<and>
   aborted (run IOSharedData_free (demo_config\<lparr>nProcs := 2\<rparr>)
          (take 3 demo_schedule @ [IterateThrows]) (init demo_shared)) \<and>
   run IOSharedData_free (demo_config\<lparr>nProcs := 2\<rparr>) [SetFinished, ConsumerStep]
     (run IOSharedData_free (demo_config\<lparr>nProcs := 2\<rparr>)
        (take 3 demo_schedule @ [IterateThrows]) (init demo_shared))
   = run IOSharedData_free (demo_config\<lparr>nProcs := 2\<rparr>)
        (take 3 demo_schedule @ [IterateThrows]) (init demo_shared) \<and>
   signals (run IOSharedData_free (demo_config\<lparr>nProcs := 2\<rparr>)
          (take 3 demo_schedule @ [IterateThrows]) (init demo_shared)) = 0"
  using consumer_exit_protocol[OF refl, of IOSharedData_free demo_config demo_schedule
          demo_shared "[Publish (publish demo_snapshot), ConsumerStep]"]
    consumer_exit_protocol[OF refl, of IOSharedData_free demo_config "take 6 demo_schedule"
          demo_shared "[]"]
    consumer_exit_protocol[OF refl, of IOSharedData_free demo_config "take 10 demo_schedule"
          demo_shared "[]"]
    consumer_exit_protocol[OF refl, of IOSharedData_free "demo_config\<lparr>nProcs := 2\<rparr>"
          "take 3 demo_schedule" demo_shared "[]"]
    consumer_exit_protocol[OF refl, of IOSharedData_free "demo_config\<lparr>nProcs := 2\<rparr>"
          "take 3 demo_schedule @ [IterateThrows]" demo_shared "[SetFinished, ConsumerStep]"]
  by (simp add: demo_schedule_def init_def step_def consumer_step_def between_drains_def
        io_defs io_demo_defs Let_def)

text \<open>
  C9 as stated fails where it has the signal set only after the final publish is drained
  or abandoned. Thread 0 publishes, the I/O thread finds the slot Ready and enters the
  writer, \<^verbatim>\<open>iterate\<close> returns and thread 0 sets the signal: the final publish is then
  neither drained nor abandoned, the writer has not returned and the flag is Ready. The
  I/O thread goes on to end the drain, and leaves the loop at its next test.
\<close>

theorem signal_set_during_final_drain:
  "published (run IOSharedData_free demo_config demo_early_signal (init demo_shared)) = 1 \<and>
   simulationFinished (run IOSharedData_free demo_config demo_early_signal (init demo_shared)) \<and>
   signals (run IOSharedData_free demo_config demo_early_signal (init demo_shared)) = 1 \<and>
   cpc (run IOSharedData_free demo_config demo_early_signal (init demo_shared)) = CWriting \<and>
   drains_begun (run IOSharedData_free demo_config demo_early_signal (init demo_shared)) = 1 \<and>
   drains_done (run IOSharedData_free demo_config demo_early_signal (init demo_shared)) = 0 \<and>
   disk (io (run IOSharedData_free demo_config demo_early_signal (init demo_shared))) = [] \<and>
   \<not> writingFinished
       (shared (io (run IOSharedData_free demo_config demo_early_signal (init demo_shared)))) \<and>
   io (run IOSharedData_free demo_config (demo_early_signal @ demo_finish_drain)
         (init demo_shared)) = demo_drained\<lparr>slept_us := 1000000\<rparr> \<and>
   drains_done (run IOSharedData_free demo_config (demo_early_signal @ demo_finish_drain)
         (init demo_shared)) = 1 \<and>
   cpc (run IOSharedData_free demo_config (demo_early_signal @ demo_finish_drain)
         (init demo_shared)) = CLoopTest \<and>
   cpc (run IOSharedData_free demo_config
         (demo_early_signal @ demo_finish_drain @ [ConsumerStep]) (init demo_shared)) = CExited"
  by (simp add: demo_early_signal_def demo_finish_drain_def init_def step_def consumer_step_def
        io_defs io_demo_defs Let_def)

text \<open>
  A publish that the I/O thread has not begun to drain when it reads the signal is
  abandoned: the loop ends with the slot Ready and nothing written.
\<close>

lemma final_publish_abandoned:
  "published (run IOSharedData_free demo_config demo_late_publish (init demo_shared)) = 1 \<and>
   cpc (run IOSharedData_free demo_config demo_late_publish (init demo_shared)) = CExited \<and>
   disk (io (run IOSharedData_free demo_config demo_late_publish (init demo_shared))) = [] \<and>
   shared (io (run IOSharedData_free demo_config demo_late_publish (init demo_shared)))
     = publish demo_snapshot demo_shared \<and>
   \<not> writingFinished (publish demo_snapshot demo_shared)"
  by (simp add: demo_late_publish_def init_def step_def consumer_step_def
        io_defs io_demo_defs Let_def)

end
